theory Spec2Isabelle
  imports Main "HOL-Library.Word" "HOL-Library.AList"
begin

section \<open>QueryNode control-plane tasks (internal/querynode/task.go)\<close>

text \<open>
  A shallow embedding of the six task variants of \<^verbatim>\<open>internal/querynode/task.go\<close>.
  Go pointers that may be nil are options, a nil-pointer dereference is the value
  \<open>NilPointerDereference\<close>, an \<^verbatim>\<open>error\<close> result is a value of type \<open>error option\<close>
  (\<open>None\<close> for Go's nil), and the node's registries are passed explicitly.
\<close>

subsection \<open>Protobuf messages\<close>

type_synonym UniqueID = int \<comment> \<open>int64; identifiers are only compared and copied\<close>
type_synonym Timestamp = "64 word" \<comment> \<open>uint64\<close>
type_synonym Channel = string
type_synonym FieldBinlog = string

datatype MsgType = MsgType_Undefined | MsgType_LoadSegments | MsgType_other nat

datatype LoadType = LoadType_UnKnownType | LoadType_LoadPartition | LoadType_LoadCollection

record MsgBase =
  MsgType :: MsgType
  MsgID :: UniqueID
  Timestamp :: Timestamp

record MsgPosition =
  ChannelName :: Channel
  MsgID :: "8 word list"
  MsgGroup :: string
  Timestamp :: Timestamp

record SegmentInfo =
  ID :: UniqueID
  CollectionID :: UniqueID
  PartitionID :: UniqueID
  NumOfRows :: int
  DmlPosition :: "MsgPosition option"
  Binlogs :: "FieldBinlog list"
  Statslogs :: "FieldBinlog list"
  Deltalogs :: "FieldBinlog list"

record SegmentLoadInfo =
  SegmentID :: UniqueID
  PartitionID :: UniqueID
  CollectionID :: UniqueID
  BinlogPaths :: "FieldBinlog list"
  NumOfRows :: int
  Statslogs :: "FieldBinlog list"
  Deltalogs :: "FieldBinlog list"

record VchannelInfo =
  ChannelName :: Channel
  SeekPosition :: "MsgPosition option"
  UnflushedSegments :: "SegmentInfo option list"
  FlushedSegments :: "SegmentInfo option list"
  DroppedSegments :: "SegmentInfo option list"

record LoadMetaInfo =
  LoadType :: LoadType
  PartitionIDs :: "UniqueID list"

record CollectionSchema =
  Name :: string

text \<open>Every request carries \<^verbatim>\<open>Base *commonpb.MsgBase\<close> and \<^verbatim>\<open>CollectionID\<close>.\<close>

record Request =
  Base :: "MsgBase option"
  CollectionID :: UniqueID

record AddQueryChannelRequest = Request +
  QueryChannel :: Channel
  SeekPosition :: "MsgPosition option"

record WatchDmChannelsRequest = Request +
  PartitionIDs :: "UniqueID list"
  Infos :: "VchannelInfo option list"
  Schema :: "CollectionSchema option"
  LoadMeta :: "LoadMetaInfo option"
  ReplicaID :: int

record WatchDeltaChannelsRequest = Request +
  Infos :: "VchannelInfo option list"
  ReplicaId :: int

record LoadSegmentsRequest = Request +
  Infos :: "SegmentLoadInfo list"
  Schema :: "CollectionSchema option"
  LoadMeta :: "LoadMetaInfo option"

record ReleaseCollectionRequest = Request +
  NodeID :: int

record ReleasePartitionsRequest = Request +
  PartitionIDs :: "UniqueID list"

subsection \<open>Errors and panics\<close>

datatype error =
    IllegalChannelLength UniqueID
      \<comment> \<open>"get physical channels failed, illegal channel length, collectionID = ..."\<close>
  | CannotFindCollection UniqueID
      \<comment> \<open>"cannot find collection with collectionID, %d"\<close>
  | ReleaseCollectionFailed UniqueID error
      \<comment> \<open>"release collection failed, collectionID = %d, err = %s"\<close>
  | ReleasePartitionsFailed UniqueID error
      \<comment> \<open>"release partitions failed, collectionID = %d, err = %s"\<close>
  | CollaboratorError string
      \<comment> \<open>an error returned by a collaborator (replica, loader, message stream, ...)\<close>

datatype panic = NilPointerDereference

subsection \<open>Tasks\<close>

text \<open>
  \<^verbatim>\<open>baseTask\<close> holds \<^verbatim>\<open>done\<close>, \<^verbatim>\<open>ctx\<close> and \<^verbatim>\<open>id\<close>; only \<^verbatim>\<open>id\<close> is read or written by
  the functions embedded here. Each variant adds \<^verbatim>\<open>req\<close>, a pointer, and \<^verbatim>\<open>node\<close>, which
  is passed to \<open>Execute\<close> as an argument.
\<close>

record baseTask =
  id' :: UniqueID

record 'r task = baseTask +
  req :: "'r option"

type_synonym addQueryChannelTask = "AddQueryChannelRequest task"
type_synonym watchDmChannelsTask = "WatchDmChannelsRequest task"
type_synonym watchDeltaChannelsTask = "WatchDeltaChannelsRequest task"
type_synonym loadSegmentsTask = "LoadSegmentsRequest task"
type_synonym releaseCollectionTask = "ReleaseCollectionRequest task"
type_synonym releasePartitionsTask = "ReleasePartitionsRequest task"

definition baseTask_ID :: "'a baseTask_scheme \<Rightarrow> UniqueID" where
  "baseTask_ID b = id' b"

definition baseTask_SetID :: "UniqueID \<Rightarrow> 'a baseTask_scheme \<Rightarrow> 'a baseTask_scheme" where
  "baseTask_SetID uid b = b\<lparr>id' := uid\<rparr>"

text \<open>
  \<^verbatim>\<open>rand.Int63n(n)\<close> of Go's \<^verbatim>\<open>math/rand\<close>: for \<open>0 < n\<close> it returns \<open>v % n\<close> (or
  \<open>v & (n-1)\<close> when \<open>n\<close> is a power of two), where \<open>v\<close> is the non-negative 63-bit
  draw that the generator hands out. The draw is an argument of the model.
\<close>

definition rand_Int63n :: "int \<Rightarrow> int \<Rightarrow> int" where
  "rand_Int63n n v = v mod n"

subsubsection \<open>Timestamp\<close>

text \<open>
  \<^verbatim>\<open>if r.req.Base == nil { log.Warn(...); return 0 }; return r.req.Base.Timestamp\<close>.
  The receiver's \<^verbatim>\<open>req\<close> is dereferenced without a check.
\<close>

definition addQueryChannelTask_Timestamp :: "addQueryChannelTask \<Rightarrow> panic + Timestamp" where
  "addQueryChannelTask_Timestamp r =
     (case req r of
        None \<Rightarrow> Inl NilPointerDereference
      | Some q \<Rightarrow> (case Base q of None \<Rightarrow> Inr 0 | Some b \<Rightarrow> Inr (MsgBase.Timestamp b)))"

definition watchDmChannelsTask_Timestamp :: "watchDmChannelsTask \<Rightarrow> panic + Timestamp" where
  "watchDmChannelsTask_Timestamp w =
     (case req w of
        None \<Rightarrow> Inl NilPointerDereference
      | Some q \<Rightarrow> (case Base q of None \<Rightarrow> Inr 0 | Some b \<Rightarrow> Inr (MsgBase.Timestamp b)))"

definition watchDeltaChannelsTask_Timestamp :: "watchDeltaChannelsTask \<Rightarrow> panic + Timestamp" where
  "watchDeltaChannelsTask_Timestamp w =
     (case req w of
        None \<Rightarrow> Inl NilPointerDereference
      | Some q \<Rightarrow> (case Base q of None \<Rightarrow> Inr 0 | Some b \<Rightarrow> Inr (MsgBase.Timestamp b)))"

definition loadSegmentsTask_Timestamp :: "loadSegmentsTask \<Rightarrow> panic + Timestamp" where
  "loadSegmentsTask_Timestamp l =
     (case req l of
        None \<Rightarrow> Inl NilPointerDereference
      | Some q \<Rightarrow> (case Base q of None \<Rightarrow> Inr 0 | Some b \<Rightarrow> Inr (MsgBase.Timestamp b)))"

definition releaseCollectionTask_Timestamp :: "releaseCollectionTask \<Rightarrow> panic + Timestamp" where
  "releaseCollectionTask_Timestamp r =
     (case req r of
        None \<Rightarrow> Inl NilPointerDereference
      | Some q \<Rightarrow> (case Base q of None \<Rightarrow> Inr 0 | Some b \<Rightarrow> Inr (MsgBase.Timestamp b)))"

definition releasePartitionsTask_Timestamp :: "releasePartitionsTask \<Rightarrow> panic + Timestamp" where
  "releasePartitionsTask_Timestamp r =
     (case req r of
        None \<Rightarrow> Inl NilPointerDereference
      | Some q \<Rightarrow> (case Base q of None \<Rightarrow> Inr 0 | Some b \<Rightarrow> Inr (MsgBase.Timestamp b)))"

subsubsection \<open>OnEnqueue\<close>

text \<open>
  \<^verbatim>\<open>if r.req == nil || r.req.Base == nil { r.SetID(rand.Int63n(100000000000)) }
  else { r.SetID(r.req.Base.MsgID) }; return nil\<close>.
  The first argument is the generator's draw; the result is the returned error and the
  task with its new id.
\<close>

definition addQueryChannelTask_OnEnqueue ::
  "int \<Rightarrow> addQueryChannelTask \<Rightarrow> error option \<times> addQueryChannelTask" where
  "addQueryChannelTask_OnEnqueue v r =
     (case req r of
        None \<Rightarrow> (None, baseTask_SetID (rand_Int63n 100000000000 v) r)
      | Some q \<Rightarrow>
          (case Base q of
             None \<Rightarrow> (None, baseTask_SetID (rand_Int63n 100000000000 v) r)
           | Some b \<Rightarrow> (None, baseTask_SetID (MsgBase.MsgID b) r)))"

definition watchDmChannelsTask_OnEnqueue ::
  "int \<Rightarrow> watchDmChannelsTask \<Rightarrow> error option \<times> watchDmChannelsTask" where
  "watchDmChannelsTask_OnEnqueue v w =
     (case req w of
        None \<Rightarrow> (None, baseTask_SetID (rand_Int63n 100000000000 v) w)
      | Some q \<Rightarrow>
          (case Base q of
             None \<Rightarrow> (None, baseTask_SetID (rand_Int63n 100000000000 v) w)
           | Some b \<Rightarrow> (None, baseTask_SetID (MsgBase.MsgID b) w)))"

definition watchDeltaChannelsTask_OnEnqueue ::
  "int \<Rightarrow> watchDeltaChannelsTask \<Rightarrow> error option \<times> watchDeltaChannelsTask" where
  "watchDeltaChannelsTask_OnEnqueue v w =
     (case req w of
        None \<Rightarrow> (None, baseTask_SetID (rand_Int63n 100000000000 v) w)
      | Some q \<Rightarrow>
          (case Base q of
             None \<Rightarrow> (None, baseTask_SetID (rand_Int63n 100000000000 v) w)
           | Some b \<Rightarrow> (None, baseTask_SetID (MsgBase.MsgID b) w)))"

definition loadSegmentsTask_OnEnqueue ::
  "int \<Rightarrow> loadSegmentsTask \<Rightarrow> error option \<times> loadSegmentsTask" where
  "loadSegmentsTask_OnEnqueue v l =
     (case req l of
        None \<Rightarrow> (None, baseTask_SetID (rand_Int63n 100000000000 v) l)
      | Some q \<Rightarrow>
          (case Base q of
             None \<Rightarrow> (None, baseTask_SetID (rand_Int63n 100000000000 v) l)
           | Some b \<Rightarrow> (None, baseTask_SetID (MsgBase.MsgID b) l)))"

definition releaseCollectionTask_OnEnqueue ::
  "int \<Rightarrow> releaseCollectionTask \<Rightarrow> error option \<times> releaseCollectionTask" where
  "releaseCollectionTask_OnEnqueue v r =
     (case req r of
        None \<Rightarrow> (None, baseTask_SetID (rand_Int63n 100000000000 v) r)
      | Some q \<Rightarrow>
          (case Base q of
             None \<Rightarrow> (None, baseTask_SetID (rand_Int63n 100000000000 v) r)
           | Some b \<Rightarrow> (None, baseTask_SetID (MsgBase.MsgID b) r)))"

definition releasePartitionsTask_OnEnqueue ::
  "int \<Rightarrow> releasePartitionsTask \<Rightarrow> error option \<times> releasePartitionsTask" where
  "releasePartitionsTask_OnEnqueue v r =
     (case req r of
        None \<Rightarrow> (None, baseTask_SetID (rand_Int63n 100000000000 v) r)
      | Some q \<Rightarrow>
          (case Base q of
             None \<Rightarrow> (None, baseTask_SetID (rand_Int63n 100000000000 v) r)
           | Some b \<Rightarrow> (None, baseTask_SetID (MsgBase.MsgID b) r)))"

subsection \<open>Parameters, helpers of other packages and results of external calls\<close>

datatype segmentType = segmentTypeGrowing | segmentTypeSealed

datatype replicaRef = streamingReplica | historicalReplica
  \<comment> \<open>\<^verbatim>\<open>node.streaming.replica\<close> and \<^verbatim>\<open>node.historical.replica\<close>\<close>

text \<open>
  What the tasks read from outside \<^verbatim>\<open>task.go\<close> and cannot compute themselves:
  the configuration (\<^verbatim>\<open>Params\<close>), the channel-name helpers of \<^verbatim>\<open>funcutil\<close>, the
  error (or nil) that each fallible collaborator call returns, and the order in which
  Go visits the keys of a map in the \<open>k\<close>-th \<^verbatim>\<open>range\<close> statement over
  \<^verbatim>\<open>channel2FlowGraph\<close>. All of them are arguments of the model, so every theorem
  holds for every choice.
\<close>

record env =
  QueryNodeSubName :: string
  GetNodeID :: int
  RootCoordDelta :: string
  RootCoordDml :: string
  ToPhysicalChannel :: "Channel \<Rightarrow> Channel"
  GenChannelSubName :: "string \<Rightarrow> UniqueID \<Rightarrow> int \<Rightarrow> string"
  ConvertChannelName :: "Channel \<Rightarrow> string \<Rightarrow> string \<Rightarrow> error + Channel"
  loadSegmentResult :: "LoadSegmentsRequest \<Rightarrow> segmentType \<Rightarrow> error option"
  FromDmlCPLoadDeleteResult :: "UniqueID \<Rightarrow> MsgPosition option \<Rightarrow> error option"
  addFlowGraphsForDMLChannelsResult :: "UniqueID \<Rightarrow> Channel list \<Rightarrow> error option"
  addFlowGraphsForDeltaChannelsResult :: "UniqueID \<Rightarrow> Channel list \<Rightarrow> error option"
  consumeFlowGraphResult :: "Channel \<Rightarrow> Channel \<Rightarrow> string \<Rightarrow> error option"
  consumeFlowGraphFromLatestResult :: "Channel \<Rightarrow> Channel \<Rightarrow> string \<Rightarrow> error option"
  seekQueryNodeFlowGraphResult :: "Channel \<Rightarrow> MsgPosition \<Rightarrow> error option"
  addQueryShardResult :: "UniqueID \<Rightarrow> Channel \<Rightarrow> int \<Rightarrow> error option"
  watchDMLTSafeResult :: "Channel \<Rightarrow> error option"
  watchDeltaTSafeResult :: "Channel \<Rightarrow> error option"
  removePartitionResult :: "replicaRef \<Rightarrow> UniqueID \<Rightarrow> error option"
  rangeSeed :: "nat \<Rightarrow> Channel list"

subsection \<open>Go maps\<close>

text \<open>
  A Go map is an association list with distinct keys: \<open>AList.update\<close> is the
  assignment \<^verbatim>\<open>m[k] = v\<close>, \<open>length\<close> is \<^verbatim>\<open>len(m)\<close>, \<open>map_of\<close> the lookup with
  \<^verbatim>\<open>ok\<close>. A lookup without \<^verbatim>\<open>ok\<close> gives the zero value for a missing key.
\<close>

definition goLookupString :: "('k \<times> string) list \<Rightarrow> 'k \<Rightarrow> string" where
  "goLookupString m k = (case map_of m k of None \<Rightarrow> [] | Some v \<Rightarrow> v)"

definition goLookupPtr :: "('k \<times> 'v option) list \<Rightarrow> 'k \<Rightarrow> 'v option" where
  "goLookupPtr m k = (case map_of m k of None \<Rightarrow> None | Some v \<Rightarrow> v)"

text \<open>
  \<^verbatim>\<open>for k, v := range m\<close> visits every entry once, in an order Go leaves open. The
  entries are visited in the order of \<open>ord\<close> for the keys it lists, then the others.
  Every order of the entries is \<open>rangeOver ord m\<close> for some \<open>ord\<close>.
\<close>

definition rangeOver :: "'k list \<Rightarrow> ('k \<times> 'v) list \<Rightarrow> ('k \<times> 'v) list" where
  "rangeOver ord m =
     concat (map (\<lambda>k. case map_of m k of None \<Rightarrow> [] | Some v \<Rightarrow> [(k, v)]) (remdups ord))
     @ filter (\<lambda>kv. fst kv \<notin> set ord) m"

text \<open>
  A loop whose body sets \<^verbatim>\<open>err\<close> and that is left (by \<^verbatim>\<open>break\<close> or \<^verbatim>\<open>return\<close>) as soon
  as \<^verbatim>\<open>err != nil\<close>: the body gives the error and the new state.
\<close>

primrec untilError :: "('a \<Rightarrow> 's \<Rightarrow> error option \<times> 's) \<Rightarrow> 'a list \<Rightarrow> 's \<Rightarrow> error option \<times> 's" where
  "untilError body [] s = (None, s)"
| "untilError body (x # xs) s =
     (case body x s of
        (Some e, s') \<Rightarrow> (Some e, s')
      | (None, s') \<Rightarrow> untilError body xs s')"

subsection \<open>The registries of the node\<close>

text \<open>
  Modelled from the spec: the \<^verbatim>\<open>Collection\<close> struct (package querynode, not in
  task.go). Spec section 3: schema, load-type, vChannels, pChannels, vDeltaChannels,
  pDeltaChannels, release-time.
\<close>

record Collection =
  colID :: UniqueID
  colSchema :: "CollectionSchema option"
  loadType :: LoadType
  vChannels :: "Channel list"
  pChannels :: "Channel list"
  vDeltaChannels :: "Channel list"
  pDeltaChannels :: "Channel list"
  releaseTime :: Timestamp

text \<open>
  Modelled from the spec: the replica behind \<^verbatim>\<open>ReplicaInterface\<close> (spec 4.3): the
  collection, partition (partition-id to collection-id) and segment catalogues, the
  excluded-segment set per collection, and the query lock.
\<close>

record Replica =
  collections :: "UniqueID \<rightharpoonup> Collection"
  partitions :: "UniqueID \<rightharpoonup> UniqueID"
  segments :: "UniqueID \<rightharpoonup> segmentType"
  excludedSegments :: "UniqueID \<rightharpoonup> SegmentInfo list"
  queryLocked :: bool

text \<open>
  Modelled from the spec: a flow-graph of \<^verbatim>\<open>dataSyncService\<close> (spec 4.4); its runtime
  is out of scope, so it is known by the collection and the channel it was created for.
\<close>

record queryNodeFlowGraph =
  fgCollectionID :: UniqueID
  fgChannel :: Channel

text \<open>
  Modelled from the spec: a query shard (spec 3 and 4.5): one per collection-id,
  dml channel and replica-id, owning a DML and a Delta tSafe watch.
\<close>

record queryShard =
  qsCollectionID :: UniqueID
  qsChannel :: Channel
  qsReplicaID :: int
  dmlTSafeWatched :: bool
  deltaTSafeWatched :: bool

text \<open>The calls that a task makes on its collaborators, with the error returned.\<close>

datatype call =
    AddCollection replicaRef UniqueID
  | AddShardCluster UniqueID int Channel
  | AddPartition replicaRef UniqueID UniqueID
  | LoadSegment "UniqueID list" segmentType "error option"
  | RemoveSegment replicaRef UniqueID
  | AddExcludedSegments replicaRef UniqueID "UniqueID list"
  | RemoveExcludedSegments replicaRef UniqueID
  | AddFlowGraphsForDMLChannels UniqueID "Channel list" "error option"
  | AddFlowGraphsForDeltaChannels UniqueID "Channel list" "error option"
  | ConsumeFlowGraph Channel Channel string "error option"
  | ConsumeFlowGraphFromLatest Channel Channel string "error option"
  | SeekQueryNodeFlowGraph Channel MsgPosition "error option"
  | FromDmlCPLoadDelete UniqueID "MsgPosition option" "error option"
  | FlowGraphClose Channel
  | FlowGraphStart Channel
  | RemoveFlowGraphsByDMLChannels "Channel list"
  | RemoveFlowGraphsByDeltaChannels "Channel list"
  | AddVChannels replicaRef UniqueID "Channel list"
  | AddPChannels replicaRef UniqueID "Channel list"
  | AddVDeltaChannels replicaRef UniqueID "Channel list"
  | AddPDeltaChannels replicaRef UniqueID "Channel list"
  | SetLoadType replicaRef UniqueID LoadType
  | SetReleaseTime replicaRef UniqueID Timestamp
  | AddTSafe Channel
  | RemoveTSafe Channel
  | AddQueryShard UniqueID Channel int
  | WatchDMLTSafe Channel "error option"
  | WatchDeltaTSafe Channel "error option"
  | QueryShardReleaseCollection UniqueID
  | QueryLock replicaRef
  | QueryUnlock replicaRef
  | RemovePartition replicaRef UniqueID "error option"
  | RemoveCollection replicaRef UniqueID

text \<open>
  \<^verbatim>\<open>QueryNode\<close>: the collaborators that the tasks reach through \<^verbatim>\<open>node\<close>. The field
  \<open>calls\<close> is not part of the program: it lists, in order, the collaborator calls of
  the task that is executing; every \<open>Execute\<close> starts it empty.
\<close>

record QueryNode =
  streaming :: Replica
  historical :: Replica
  dmlChannel2FlowGraph :: "Channel \<rightharpoonup> queryNodeFlowGraph"
  deltaChannel2FlowGraph :: "Channel \<rightharpoonup> queryNodeFlowGraph"
  tSafes :: "Channel set"
  queryShards :: "Channel \<rightharpoonup> queryShard"
  shardClusters :: "(UniqueID \<times> int \<times> Channel) set"
  calls :: "call list"

text \<open>An execution returns an error or nil, or panics; the node is as the task left it.\<close>

datatype outcome = Panic panic QueryNode | Return "error option" QueryNode

subsection \<open>Collaborators\<close>

definition called :: "call \<Rightarrow> QueryNode \<Rightarrow> QueryNode" where
  "called c n = n\<lparr>calls := calls n @ [c]\<rparr>"

definition replicaOf :: "replicaRef \<Rightarrow> QueryNode \<Rightarrow> Replica" where
  "replicaOf ref n = (case ref of streamingReplica \<Rightarrow> streaming n | historicalReplica \<Rightarrow> historical n)"

definition onReplica :: "replicaRef \<Rightarrow> (Replica \<Rightarrow> Replica) \<Rightarrow> QueryNode \<Rightarrow> QueryNode" where
  "onReplica ref f n =
     (case ref of
        streamingReplica \<Rightarrow> n\<lparr>streaming := f (streaming n)\<rparr>
      | historicalReplica \<Rightarrow> n\<lparr>historical := f (historical n)\<rparr>)"

text \<open>
  Modelled from the spec: \<^verbatim>\<open>newCollection\<close>, called by \<^verbatim>\<open>addCollection\<close>. A new
  collection has the given schema, no channels, load type unknown.
\<close>

definition newCollection :: "UniqueID \<Rightarrow> CollectionSchema option \<Rightarrow> Collection" where
  "newCollection cid sch =
     \<lparr>colID = cid, colSchema = sch, loadType = LoadType_UnKnownType, vChannels = [],
      pChannels = [], vDeltaChannels = [], pDeltaChannels = [], releaseTime = 0\<rparr>"

text \<open>
  Modelled from the spec: \<^verbatim>\<open>ReplicaInterface.addCollection(id, schema)\<close>, spec 4.3:
  returns the collection handle, idempotent (a collection already present is kept).
  The handle is the collection-id: the collection is reached through the replica.
\<close>

definition addCollection :: "replicaRef \<Rightarrow> UniqueID \<Rightarrow> CollectionSchema option \<Rightarrow> QueryNode \<Rightarrow> QueryNode" where
  "addCollection ref cid sch n =
     called (AddCollection ref cid)
       (onReplica ref (\<lambda>r. if collections r cid = None
                            then r\<lparr>collections := (collections r)(cid \<mapsto> newCollection cid sch)\<rparr>
                            else r) n)"

text \<open>Modelled from the spec: \<^verbatim>\<open>ReplicaInterface.hasCollection\<close>, spec 4.3.\<close>

definition hasCollection :: "replicaRef \<Rightarrow> UniqueID \<Rightarrow> QueryNode \<Rightarrow> bool" where
  "hasCollection ref cid n = (collections (replicaOf ref n) cid \<noteq> None)"

text \<open>
  Modelled from the spec: \<^verbatim>\<open>ReplicaInterface.getCollectionByID\<close>, spec 4.3 and 4.2.5
  ("Get the collection; on missing, ... fail").
\<close>

definition getCollectionByID :: "replicaRef \<Rightarrow> UniqueID \<Rightarrow> QueryNode \<Rightarrow> error + Collection" where
  "getCollectionByID ref cid n =
     (case collections (replicaOf ref n) cid of
        None \<Rightarrow> Inl (CollaboratorError ''collection not found'')
      | Some c \<Rightarrow> Inr c)"

text \<open>
  Modelled from the spec: \<^verbatim>\<open>ReplicaInterface.addPartition\<close>, spec 4.3 and 8 (adding a
  partition again neither fails nor duplicates it). It fails when the replica has no
  such collection.
\<close>

definition addPartition :: "replicaRef \<Rightarrow> UniqueID \<Rightarrow> UniqueID \<Rightarrow> QueryNode \<Rightarrow> error option \<times> QueryNode" where
  "addPartition ref cid pid n =
     (if collections (replicaOf ref n) cid = None
      then (Some (CollaboratorError ''collection not found''), called (AddPartition ref cid pid) n)
      else (None, called (AddPartition ref cid pid)
                    (onReplica ref (\<lambda>r. r\<lparr>partitions := (partitions r)(pid \<mapsto> cid)\<rparr>) n)))"

text \<open>Modelled from the spec: \<^verbatim>\<open>ReplicaInterface.hasPartition\<close>, spec 4.3.\<close>

definition hasPartition :: "replicaRef \<Rightarrow> UniqueID \<Rightarrow> QueryNode \<Rightarrow> bool" where
  "hasPartition ref pid n = (partitions (replicaOf ref n) pid \<noteq> None)"

text \<open>
  Modelled from the spec: \<^verbatim>\<open>ReplicaInterface.removePartition\<close>, spec 4.3 and 4.2.6: it
  may fail (the replica then keeps the partition); otherwise the partition is gone.
\<close>

definition removePartition :: "env \<Rightarrow> replicaRef \<Rightarrow> UniqueID \<Rightarrow> QueryNode \<Rightarrow> error option \<times> QueryNode" where
  "removePartition env ref pid n =
     (let res = (if partitions (replicaOf ref n) pid = None
                 then Some (CollaboratorError ''partition not found'')
                 else removePartitionResult env ref pid)
      in (res, called (RemovePartition ref pid res)
                 (case res of
                    Some e \<Rightarrow> n
                  | None \<Rightarrow> onReplica ref (\<lambda>r. r\<lparr>partitions := (partitions r)(pid := None)\<rparr>) n)))"

text \<open>
  Modelled from the spec: \<^verbatim>\<open>ReplicaInterface.removeCollection\<close>, spec 4.3 and 4.2.5
  ("Remove the collection entry from the replica"); it fails on a missing collection.
\<close>

definition removeCollection :: "replicaRef \<Rightarrow> UniqueID \<Rightarrow> QueryNode \<Rightarrow> error option \<times> QueryNode" where
  "removeCollection ref cid n =
     (if collections (replicaOf ref n) cid = None
      then (Some (CollaboratorError ''collection not found''), called (RemoveCollection ref cid) n)
      else (None, called (RemoveCollection ref cid)
                    (onReplica ref (\<lambda>r. r\<lparr>collections := (collections r)(cid := None)\<rparr>) n)))"

text \<open>
  Modelled from the spec: \<^verbatim>\<open>ReplicaInterface.addExcludedSegments(cid, infos)\<close>, spec 3
  and 4.3: the infos join the excluded set kept under the collection-id.
\<close>

definition addExcludedSegments :: "replicaRef \<Rightarrow> UniqueID \<Rightarrow> SegmentInfo list \<Rightarrow> QueryNode \<Rightarrow> QueryNode" where
  "addExcludedSegments ref cid infos n =
     called (AddExcludedSegments ref cid (map ID infos))
       (onReplica ref (\<lambda>r. r\<lparr>excludedSegments := (excludedSegments r)
           (cid \<mapsto> (case excludedSegments r cid of None \<Rightarrow> [] | Some old \<Rightarrow> old) @ infos)\<rparr>) n)"

text \<open>Modelled from the spec: \<^verbatim>\<open>ReplicaInterface.removeExcludedSegments(cid)\<close>, spec 4.3.\<close>

definition removeExcludedSegments :: "replicaRef \<Rightarrow> UniqueID \<Rightarrow> QueryNode \<Rightarrow> QueryNode" where
  "removeExcludedSegments ref cid n =
     called (RemoveExcludedSegments ref cid)
       (onReplica ref (\<lambda>r. r\<lparr>excludedSegments := (excludedSegments r)(cid := None)\<rparr>) n)"

text \<open>
  Modelled from the spec: \<^verbatim>\<open>ReplicaInterface.removeSegment(sid)\<close>, spec 4.3 and 5
  (removing a segment twice is a no-op).
\<close>

definition removeSegment :: "replicaRef \<Rightarrow> UniqueID \<Rightarrow> QueryNode \<Rightarrow> QueryNode" where
  "removeSegment ref sid n =
     called (RemoveSegment ref sid)
       (onReplica ref (\<lambda>r. r\<lparr>segments := (segments r)(sid := None)\<rparr>) n)"

text \<open>Modelled from the spec: \<^verbatim>\<open>ReplicaInterface.queryLock\<close>, spec 4.3.\<close>

definition queryLock :: "replicaRef \<Rightarrow> QueryNode \<Rightarrow> QueryNode" where
  "queryLock ref n = called (QueryLock ref) (onReplica ref (\<lambda>r. r\<lparr>queryLocked := True\<rparr>) n)"

text \<open>Modelled from the spec: \<^verbatim>\<open>ReplicaInterface.queryUnlock\<close>, spec 4.3.\<close>

definition queryUnlock :: "replicaRef \<Rightarrow> QueryNode \<Rightarrow> QueryNode" where
  "queryUnlock ref n = called (QueryUnlock ref) (onReplica ref (\<lambda>r. r\<lparr>queryLocked := False\<rparr>) n)"

text \<open>
  A method called on a collection handle changes the collection that the replica holds
  under that id (the handle is a pointer to it).
\<close>

definition onCollection :: "replicaRef \<Rightarrow> UniqueID \<Rightarrow> (Collection \<Rightarrow> Collection) \<Rightarrow> QueryNode \<Rightarrow> QueryNode" where
  "onCollection ref cid f n =
     onReplica ref (\<lambda>r. case collections r cid of
                           None \<Rightarrow> r
                         | Some c \<Rightarrow> r\<lparr>collections := (collections r)(cid \<mapsto> f c)\<rparr>) n"

text \<open>
  Modelled from the spec: the channel lists of a collection hold no duplicates (spec 3),
  so \<^verbatim>\<open>addVChannels\<close> and its three siblings append the channels not yet listed.
\<close>

definition addChannels :: "Channel list \<Rightarrow> Channel list \<Rightarrow> Channel list" where
  "addChannels new old = fold (\<lambda>ch xs. if ch \<in> set xs then xs else xs @ [ch]) new old"

text \<open>Modelled from the spec: \<^verbatim>\<open>Collection.addVChannels\<close>, spec 4.2.2 step 11.\<close>

definition addVChannels :: "replicaRef \<Rightarrow> UniqueID \<Rightarrow> Channel list \<Rightarrow> QueryNode \<Rightarrow> QueryNode" where
  "addVChannels ref cid chs n =
     called (AddVChannels ref cid chs)
       (onCollection ref cid (\<lambda>c. c\<lparr>vChannels := addChannels chs (vChannels c)\<rparr>) n)"

text \<open>Modelled from the spec: \<^verbatim>\<open>Collection.addPChannels\<close>, spec 4.2.2 step 11.\<close>

definition addPChannels :: "replicaRef \<Rightarrow> UniqueID \<Rightarrow> Channel list \<Rightarrow> QueryNode \<Rightarrow> QueryNode" where
  "addPChannels ref cid chs n =
     called (AddPChannels ref cid chs)
       (onCollection ref cid (\<lambda>c. c\<lparr>pChannels := addChannels chs (pChannels c)\<rparr>) n)"

text \<open>Modelled from the spec: \<^verbatim>\<open>Collection.addVDeltaChannels\<close>, spec 4.2.3.\<close>

definition addVDeltaChannels :: "replicaRef \<Rightarrow> UniqueID \<Rightarrow> Channel list \<Rightarrow> QueryNode \<Rightarrow> QueryNode" where
  "addVDeltaChannels ref cid chs n =
     called (AddVDeltaChannels ref cid chs)
       (onCollection ref cid (\<lambda>c. c\<lparr>vDeltaChannels := addChannels chs (vDeltaChannels c)\<rparr>) n)"

text \<open>Modelled from the spec: \<^verbatim>\<open>Collection.addPDeltaChannels\<close>, spec 4.2.3.\<close>

definition addPDeltaChannels :: "replicaRef \<Rightarrow> UniqueID \<Rightarrow> Channel list \<Rightarrow> QueryNode \<Rightarrow> QueryNode" where
  "addPDeltaChannels ref cid chs n =
     called (AddPDeltaChannels ref cid chs)
       (onCollection ref cid (\<lambda>c. c\<lparr>pDeltaChannels := addChannels chs (pDeltaChannels c)\<rparr>) n)"

text \<open>Modelled from the spec: \<^verbatim>\<open>Collection.setLoadType\<close>, spec 4.2.2 step 11.\<close>

definition setLoadType :: "replicaRef \<Rightarrow> UniqueID \<Rightarrow> LoadType \<Rightarrow> QueryNode \<Rightarrow> QueryNode" where
  "setLoadType ref cid l n =
     called (SetLoadType ref cid l) (onCollection ref cid (\<lambda>c. c\<lparr>loadType := l\<rparr>) n)"

text \<open>Modelled from the spec: \<^verbatim>\<open>Collection.setReleaseTime\<close>, spec 4.2.5.\<close>

definition setReleaseTime :: "replicaRef \<Rightarrow> UniqueID \<Rightarrow> Timestamp \<Rightarrow> QueryNode \<Rightarrow> QueryNode" where
  "setReleaseTime ref cid t n =
     called (SetReleaseTime ref cid t) (onCollection ref cid (\<lambda>c. c\<lparr>releaseTime := t\<rparr>) n)"

text \<open>
  Modelled from the spec: \<^verbatim>\<open>ShardClusterService.addShardCluster\<close>, spec 2 and 3: the
  registry of (collection-id, replica-id, vchannel) shard clusters.
\<close>

definition addShardCluster :: "UniqueID \<Rightarrow> int \<Rightarrow> Channel \<Rightarrow> QueryNode \<Rightarrow> QueryNode" where
  "addShardCluster cid rid vchannel n =
     called (AddShardCluster cid rid vchannel)
       (n\<lparr>shardClusters := insert (cid, rid, vchannel) (shardClusters n)\<rparr>)"

text \<open>
  Modelled from the spec: \<^verbatim>\<open>segmentLoader.loadSegment(req, segmentType)\<close>, spec 2 and
  4.2.2 step 5: it may fail; otherwise the segments of the request are in the streaming
  replica (growing) or in the historical replica (sealed).
\<close>

definition loadSegment :: "env \<Rightarrow> LoadSegmentsRequest \<Rightarrow> segmentType \<Rightarrow> QueryNode \<Rightarrow> error option \<times> QueryNode" where
  "loadSegment env lreq ty n =
     (let res = loadSegmentResult env lreq ty;
          ids = map SegmentID (LoadSegmentsRequest.Infos lreq);
          ref = (case ty of segmentTypeGrowing \<Rightarrow> streamingReplica | segmentTypeSealed \<Rightarrow> historicalReplica)
      in (res, called (LoadSegment ids ty res)
                 (case res of
                    Some e \<Rightarrow> n
                  | None \<Rightarrow> onReplica ref
                      (\<lambda>r. r\<lparr>segments := fold (\<lambda>sid m. m(sid \<mapsto> ty)) ids (segments r)\<rparr>) n)))"

text \<open>
  Modelled from the spec: \<^verbatim>\<open>segmentLoader.FromDmlCPLoadDelete\<close>, spec 4.2.3: replays
  deletes into loaded segments, whose contents are not part of this model; it may fail.
\<close>

definition loader_FromDmlCPLoadDelete :: "env \<Rightarrow> UniqueID \<Rightarrow> MsgPosition option \<Rightarrow> QueryNode \<Rightarrow> error option \<times> QueryNode" where
  "loader_FromDmlCPLoadDelete env cid pos n =
     (let res = FromDmlCPLoadDeleteResult env cid pos
      in (res, called (FromDmlCPLoadDelete cid pos res) n))"

text \<open>
  Modelled from the spec: \<^verbatim>\<open>dataSyncService.addFlowGraphsForDMLChannels(cid, vchans)\<close>,
  spec 4.4 and 4.2.2 step 9: it may fail; otherwise a flow-graph is created and
  registered for every vchannel, and the map from vchannel to graph is returned.
\<close>

definition addFlowGraphsForDMLChannels ::
  "env \<Rightarrow> UniqueID \<Rightarrow> Channel list \<Rightarrow> QueryNode \<Rightarrow> (error + (Channel \<times> queryNodeFlowGraph) list) \<times> QueryNode" where
  "addFlowGraphsForDMLChannels env cid chs n =
     (let res = addFlowGraphsForDMLChannelsResult env cid chs
      in case res of
           Some e \<Rightarrow> (Inl e, called (AddFlowGraphsForDMLChannels cid chs res) n)
         | None \<Rightarrow>
             (Inr (map (\<lambda>ch. (ch, \<lparr>fgCollectionID = cid, fgChannel = ch\<rparr>)) (remdups chs)),
              called (AddFlowGraphsForDMLChannels cid chs res)
                (n\<lparr>dmlChannel2FlowGraph :=
                     fold (\<lambda>ch m. m(ch \<mapsto> \<lparr>fgCollectionID = cid, fgChannel = ch\<rparr>)) chs
                       (dmlChannel2FlowGraph n)\<rparr>)))"

text \<open>
  Modelled from the spec: \<^verbatim>\<open>dataSyncService.addFlowGraphsForDeltaChannels\<close>, spec 4.4
  ("symmetric for Delta").
\<close>

definition addFlowGraphsForDeltaChannels ::
  "env \<Rightarrow> UniqueID \<Rightarrow> Channel list \<Rightarrow> QueryNode \<Rightarrow> (error + (Channel \<times> queryNodeFlowGraph) list) \<times> QueryNode" where
  "addFlowGraphsForDeltaChannels env cid chs n =
     (let res = addFlowGraphsForDeltaChannelsResult env cid chs
      in case res of
           Some e \<Rightarrow> (Inl e, called (AddFlowGraphsForDeltaChannels cid chs res) n)
         | None \<Rightarrow>
             (Inr (map (\<lambda>ch. (ch, \<lparr>fgCollectionID = cid, fgChannel = ch\<rparr>)) (remdups chs)),
              called (AddFlowGraphsForDeltaChannels cid chs res)
                (n\<lparr>deltaChannel2FlowGraph :=
                     fold (\<lambda>ch m. m(ch \<mapsto> \<lparr>fgCollectionID = cid, fgChannel = ch\<rparr>)) chs
                       (deltaChannel2FlowGraph n)\<rparr>)))"

text \<open>
  Modelled from the spec: \<^verbatim>\<open>dataSyncService.removeFlowGraphsByDMLChannels(vchans)\<close>,
  spec 4.4: the graphs registered for these channels are removed from the service.
\<close>

definition removeFlowGraphsByDMLChannels :: "Channel list \<Rightarrow> QueryNode \<Rightarrow> QueryNode" where
  "removeFlowGraphsByDMLChannels chs n =
     called (RemoveFlowGraphsByDMLChannels chs)
       (n\<lparr>dmlChannel2FlowGraph := fold (\<lambda>ch m. m(ch := None)) chs (dmlChannel2FlowGraph n)\<rparr>)"

text \<open>Modelled from the spec: \<^verbatim>\<open>dataSyncService.removeFlowGraphsByDeltaChannels\<close>, spec 4.4.\<close>

definition removeFlowGraphsByDeltaChannels :: "Channel list \<Rightarrow> QueryNode \<Rightarrow> QueryNode" where
  "removeFlowGraphsByDeltaChannels chs n =
     called (RemoveFlowGraphsByDeltaChannels chs)
       (n\<lparr>deltaChannel2FlowGraph := fold (\<lambda>ch m. m(ch := None)) chs (deltaChannel2FlowGraph n)\<rparr>)"

text \<open>
  Modelled from the spec: \<^verbatim>\<open>queryNodeFlowGraph.consumeFlowGraph(pchan, sub)\<close>, spec 4.4:
  a call on the message bus, which may fail.
\<close>

definition consumeFlowGraph :: "env \<Rightarrow> queryNodeFlowGraph \<Rightarrow> Channel \<Rightarrow> string \<Rightarrow> QueryNode \<Rightarrow> error option \<times> QueryNode" where
  "consumeFlowGraph env fg pchan sub n =
     (let res = consumeFlowGraphResult env (fgChannel fg) pchan sub
      in (res, called (ConsumeFlowGraph (fgChannel fg) pchan sub res) n))"

text \<open>Modelled from the spec: \<^verbatim>\<open>queryNodeFlowGraph.consumeFlowGraphFromLatest\<close>, spec 4.4.\<close>

definition consumeFlowGraphFromLatest :: "env \<Rightarrow> queryNodeFlowGraph \<Rightarrow> Channel \<Rightarrow> string \<Rightarrow> QueryNode \<Rightarrow> error option \<times> QueryNode" where
  "consumeFlowGraphFromLatest env fg pchan sub n =
     (let res = consumeFlowGraphFromLatestResult env (fgChannel fg) pchan sub
      in (res, called (ConsumeFlowGraphFromLatest (fgChannel fg) pchan sub res) n))"

text \<open>Modelled from the spec: \<^verbatim>\<open>queryNodeFlowGraph.seekQueryNodeFlowGraph(pos)\<close>, spec 4.4.\<close>

definition seekQueryNodeFlowGraph :: "env \<Rightarrow> queryNodeFlowGraph \<Rightarrow> MsgPosition \<Rightarrow> QueryNode \<Rightarrow> error option \<times> QueryNode" where
  "seekQueryNodeFlowGraph env fg pos n =
     (let res = seekQueryNodeFlowGraphResult env (fgChannel fg) pos
      in (res, called (SeekQueryNodeFlowGraph (fgChannel fg) pos res) n))"

text \<open>Modelled from the spec: \<^verbatim>\<open>fg.flowGraph.Close()\<close>, spec 4.4.\<close>

definition flowGraph_Close :: "queryNodeFlowGraph \<Rightarrow> QueryNode \<Rightarrow> QueryNode" where
  "flowGraph_Close fg n = called (FlowGraphClose (fgChannel fg)) n"

text \<open>Modelled from the spec: \<^verbatim>\<open>fg.flowGraph.Start()\<close>, spec 4.4.\<close>

definition flowGraph_Start :: "queryNodeFlowGraph \<Rightarrow> QueryNode \<Rightarrow> QueryNode" where
  "flowGraph_Start fg n = called (FlowGraphStart (fgChannel fg)) n"

text \<open>Modelled from the spec: \<^verbatim>\<open>tSafeReplica.addTSafe(chan)\<close>, spec 4.6.\<close>

definition addTSafe :: "Channel \<Rightarrow> QueryNode \<Rightarrow> QueryNode" where
  "addTSafe ch n = called (AddTSafe ch) (n\<lparr>tSafes := insert ch (tSafes n)\<rparr>)"

text \<open>Modelled from the spec: \<^verbatim>\<open>tSafeReplica.removeTSafe(chan)\<close>, spec 4.6.\<close>

definition removeTSafe :: "Channel \<Rightarrow> QueryNode \<Rightarrow> QueryNode" where
  "removeTSafe ch n = called (RemoveTSafe ch) (n\<lparr>tSafes := tSafes n - {ch}\<rparr>)"

text \<open>Modelled from the spec: \<^verbatim>\<open>queryShardService.hasQueryShard(dmlChan)\<close>, spec 4.5.\<close>

definition hasQueryShard :: "Channel \<Rightarrow> QueryNode \<Rightarrow> bool" where
  "hasQueryShard ch n = (queryShards n ch \<noteq> None)"

text \<open>
  Modelled from the spec: \<^verbatim>\<open>queryShardService.addQueryShard(cid, dmlChan, replicaID)\<close>,
  spec 4.5. It may fail (the tasks drop its error); otherwise the shard exists.
\<close>

definition addQueryShard :: "env \<Rightarrow> UniqueID \<Rightarrow> Channel \<Rightarrow> int \<Rightarrow> QueryNode \<Rightarrow> QueryNode" where
  "addQueryShard env cid ch rid n =
     called (AddQueryShard cid ch rid)
       (if addQueryShardResult env cid ch rid \<noteq> None \<or> queryShards n ch \<noteq> None then n
        else n\<lparr>queryShards := (queryShards n)(ch \<mapsto>
               \<lparr>qsCollectionID = cid, qsChannel = ch, qsReplicaID = rid,
                dmlTSafeWatched = False, deltaTSafeWatched = False\<rparr>)\<rparr>)"

text \<open>Modelled from the spec: \<^verbatim>\<open>queryShardService.getQueryShard(dmlChan)\<close>, spec 4.5.\<close>

definition getQueryShard :: "Channel \<Rightarrow> QueryNode \<Rightarrow> error + queryShard" where
  "getQueryShard ch n =
     (case queryShards n ch of
        None \<Rightarrow> Inl (CollaboratorError ''query shard not found'')
      | Some qs \<Rightarrow> Inr qs)"

text \<open>
  Modelled from the spec: \<^verbatim>\<open>queryShard.watchDMLTSafe()\<close>, spec 4.5: attaches the DML
  tSafe watch of the shard; it may fail. The shard is the one that the service keeps
  under the dml channel.
\<close>

definition watchDMLTSafe :: "env \<Rightarrow> Channel \<Rightarrow> QueryNode \<Rightarrow> error option \<times> QueryNode" where
  "watchDMLTSafe env dmlChannel n =
     (let res = watchDMLTSafeResult env dmlChannel
      in (res, called (WatchDMLTSafe dmlChannel res)
                 (case res of
                    Some e \<Rightarrow> n
                  | None \<Rightarrow> n\<lparr>queryShards := (\<lambda>ch. if ch = dmlChannel
                        then map_option (\<lambda>qs. qs\<lparr>dmlTSafeWatched := True\<rparr>) (queryShards n ch)
                        else queryShards n ch)\<rparr>)))"

text \<open>Modelled from the spec: \<^verbatim>\<open>queryShard.watchDeltaTSafe()\<close>, spec 4.5.\<close>

definition watchDeltaTSafe :: "env \<Rightarrow> Channel \<Rightarrow> QueryNode \<Rightarrow> error option \<times> QueryNode" where
  "watchDeltaTSafe env dmlChannel n =
     (let res = watchDeltaTSafeResult env dmlChannel
      in (res, called (WatchDeltaTSafe dmlChannel res)
                 (case res of
                    Some e \<Rightarrow> n
                  | None \<Rightarrow> n\<lparr>queryShards := (\<lambda>ch. if ch = dmlChannel
                        then map_option (\<lambda>qs. qs\<lparr>deltaTSafeWatched := True\<rparr>) (queryShards n ch)
                        else queryShards n ch)\<rparr>)))"

text \<open>
  Modelled from the spec: \<^verbatim>\<open>queryShardService.releaseCollection(cid)\<close>, spec 4.5 and 8:
  afterwards the service has no shard of the collection.
\<close>

definition queryShardService_releaseCollection :: "UniqueID \<Rightarrow> QueryNode \<Rightarrow> QueryNode" where
  "queryShardService_releaseCollection cid n =
     called (QueryShardReleaseCollection cid)
       (n\<lparr>queryShards := (\<lambda>ch. case queryShards n ch of
                                   None \<Rightarrow> None
                                 | Some qs \<Rightarrow> if qsCollectionID qs = cid then None else Some qs)\<rparr>)"

subsection \<open>watchDmChannelsTask.Execute\<close>

text \<open>
  \<^verbatim>\<open>GetLoadMeta().GetLoadType()\<close>, the generated getters: a nil \<^verbatim>\<open>LoadMeta\<close> gives the
  zero load type, \<^verbatim>\<open>UnKnownType\<close>.
\<close>

definition GetLoadType :: "LoadMetaInfo option \<Rightarrow> LoadType" where
  "GetLoadType lm = (case lm of None \<Rightarrow> LoadType_UnKnownType | Some m \<Rightarrow> LoadType m)"

text \<open>Lines 191-201; \<^verbatim>\<open>partitionIDs\<close> is \<^verbatim>\<open>w.req.GetPartitionIDs()\<close>.\<close>

definition determineLoadType :: "WatchDmChannelsRequest \<Rightarrow> LoadType" where
  "determineLoadType r =
     (let partitionIDs = WatchDmChannelsRequest.PartitionIDs r;
          lType = GetLoadType (WatchDmChannelsRequest.LoadMeta r)
      in if lType = LoadType_UnKnownType
         then (if length partitionIDs \<noteq> 0 then LoadType_LoadPartition else LoadType_LoadCollection)
         else lType)"

text \<open>Lines 204-213: \<^verbatim>\<open>vChannels\<close>, \<^verbatim>\<open>pChannels\<close> and the map \<^verbatim>\<open>VPChannels\<close>.\<close>

definition physicalChannels ::
  "env \<Rightarrow> VchannelInfo list \<Rightarrow> Channel list \<times> Channel list \<times> (Channel \<times> Channel) list" where
  "physicalChannels env infos =
     (map VchannelInfo.ChannelName infos,
      map (\<lambda>info. ToPhysicalChannel env (VchannelInfo.ChannelName info)) infos,
      fold (\<lambda>info m. AList.update (VchannelInfo.ChannelName info)
                        (ToPhysicalChannel env (VchannelInfo.ChannelName info)) m) infos [])"

text \<open>Lines 229-235: the collection in both replicas, a shard cluster per vchannel.\<close>

definition watchDm_initMeta ::
  "WatchDmChannelsRequest \<Rightarrow> Channel list \<Rightarrow> QueryNode \<Rightarrow> QueryNode" where
  "watchDm_initMeta r vChans n =
     fold (\<lambda>vchannel. addShardCluster (Request.CollectionID r) (ReplicaID r) vchannel) vChans
       (addCollection historicalReplica (Request.CollectionID r) (WatchDmChannelsRequest.Schema r)
         (addCollection streamingReplica (Request.CollectionID r) (WatchDmChannelsRequest.Schema r) n))"

text \<open>Lines 244-252.\<close>

definition toLoadInfo :: "SegmentInfo \<Rightarrow> SegmentLoadInfo" where
  "toLoadInfo ufInfo =
     \<lparr>SegmentID = ID ufInfo,
      SegmentLoadInfo.PartitionID = SegmentInfo.PartitionID ufInfo,
      SegmentLoadInfo.CollectionID = SegmentInfo.CollectionID ufInfo,
      BinlogPaths = Binlogs ufInfo,
      SegmentLoadInfo.NumOfRows = SegmentInfo.NumOfRows ufInfo,
      SegmentLoadInfo.Statslogs = SegmentInfo.Statslogs ufInfo,
      SegmentLoadInfo.Deltalogs = SegmentInfo.Deltalogs ufInfo\<rparr>"

text \<open>Lines 269-276; the errors of \<^verbatim>\<open>addPartition\<close> are dropped.\<close>

definition watchDm_updatePartitions :: "UniqueID \<Rightarrow> LoadSegmentsRequest \<Rightarrow> QueryNode \<Rightarrow> QueryNode" where
  "watchDm_updatePartitions cid lreq n =
     fold (\<lambda>partitionID m.
             snd (addPartition streamingReplica cid partitionID
                   (snd (addPartition historicalReplica cid partitionID m))))
       (case LoadSegmentsRequest.LoadMeta lreq of None \<Rightarrow> [] | Some lm \<Rightarrow> LoadMetaInfo.PartitionIDs lm)
       (fold (\<lambda>info m.
                snd (addPartition historicalReplica cid (SegmentLoadInfo.PartitionID info)
                      (snd (addPartition streamingReplica cid (SegmentLoadInfo.PartitionID info) m))))
          (LoadSegmentsRequest.Infos lreq) n)"

text \<open>Lines 293-299, the deferred function when \<^verbatim>\<open>err != nil\<close>.\<close>

definition watchDm_removeGrowing :: "UniqueID list \<Rightarrow> QueryNode \<Rightarrow> QueryNode" where
  "watchDm_removeGrowing unFlushedSegmentIDs n =
     fold (\<lambda>segmentID. removeSegment streamingReplica segmentID) unFlushedSegmentIDs n"

text \<open>
  Lines 307-312, the body of the loop for one channel info. The write of
  \<^verbatim>\<open>MsgGroup\<close> goes through the pointer into the request; the request is not read
  again after \<open>Execute\<close>, so the position is copied.
\<close>

definition groupStep ::
  "string \<Rightarrow> VchannelInfo \<Rightarrow>
   (Channel \<times> MsgPosition) list \<times> (Channel \<times> MsgPosition option) list \<Rightarrow>
   (Channel \<times> MsgPosition) list \<times> (Channel \<times> MsgPosition option) list" where
  "groupStep consumeSubName info acc =
     (case acc of (channel2SeekPosition, channel2AsConsumerPosition) \<Rightarrow>
        (case VchannelInfo.SeekPosition info of
           None \<Rightarrow>
             (channel2SeekPosition,
              AList.update (VchannelInfo.ChannelName info) None channel2AsConsumerPosition)
         | Some p \<Rightarrow>
             if length (MsgPosition.MsgID p) = 0
             then (channel2SeekPosition,
                   AList.update (VchannelInfo.ChannelName info) (Some p) channel2AsConsumerPosition)
             else (AList.update (VchannelInfo.ChannelName info) (p\<lparr>MsgGroup := consumeSubName\<rparr>)
                     channel2SeekPosition,
                   channel2AsConsumerPosition)))"

text \<open>Lines 304-313: \<^verbatim>\<open>channel2SeekPosition\<close> and \<^verbatim>\<open>channel2AsConsumerPosition\<close>.\<close>

definition groupChannels ::
  "string \<Rightarrow> VchannelInfo list \<Rightarrow> (Channel \<times> MsgPosition) list \<times> (Channel \<times> MsgPosition option) list" where
  "groupChannels consumeSubName infos = fold (groupStep consumeSubName) infos ([], [])"

text \<open>
  Lines 337-343, the loop over \<^verbatim>\<open>channel2SeekPosition\<close> for one flushed segment. The
  condition reads \<^verbatim>\<open>flushedSegment.DmlPosition\<close> first, then compares under
  \<^verbatim>\<open>DmlPosition != nil\<close>. The order of the positions only orders the result.
\<close>

primrec flushedMatches :: "SegmentInfo option \<Rightarrow> MsgPosition list \<Rightarrow> panic + SegmentInfo list" where
  "flushedMatches flushedSegment [] = Inr []"
| "flushedMatches flushedSegment (position # rest) =
     (case flushedSegment of
        None \<Rightarrow> Inl NilPointerDereference
      | Some seg \<Rightarrow>
          (case flushedMatches flushedSegment rest of
             Inl p \<Rightarrow> Inl p
           | Inr others \<Rightarrow>
               Inr ((if (case DmlPosition seg of
                           None \<Rightarrow> False
                         | Some dml \<Rightarrow> MsgPosition.ChannelName dml = MsgPosition.ChannelName position
                                     \<and> MsgPosition.Timestamp dml > MsgPosition.Timestamp position)
                     then [seg] else []) @ others)))"

text \<open>Lines 335-345, over the flushed segments of all infos.\<close>

primrec flushedCheckPoints :: "MsgPosition list \<Rightarrow> SegmentInfo option list \<Rightarrow> panic + SegmentInfo list" where
  "flushedCheckPoints positions [] = Inr []"
| "flushedCheckPoints positions (flushedSegment # rest) =
     (case flushedMatches flushedSegment positions of
        Inl p \<Rightarrow> Inl p
      | Inr found \<Rightarrow>
          (case flushedCheckPoints positions rest of
             Inl p \<Rightarrow> Inl p
           | Inr others \<Rightarrow> Inr (found @ others)))"

text \<open>
  Lines 357-363, for one dropped segment. The condition is
  \<^verbatim>\<open>droppedSegment != nil && droppedSegment.DmlPosition.ChannelName == ... &&
  droppedSegment.DmlPosition.Timestamp > ...\<close>: \<^verbatim>\<open>DmlPosition\<close> is dereferenced with
  no check of its own.
\<close>

primrec droppedMatches :: "SegmentInfo option \<Rightarrow> MsgPosition list \<Rightarrow> panic + SegmentInfo list" where
  "droppedMatches droppedSegment [] = Inr []"
| "droppedMatches droppedSegment (position # rest) =
     (case droppedSegment of
        None \<Rightarrow> droppedMatches droppedSegment rest
      | Some seg \<Rightarrow>
          (case DmlPosition seg of
             None \<Rightarrow> Inl NilPointerDereference
           | Some dml \<Rightarrow>
               (case droppedMatches droppedSegment rest of
                  Inl p \<Rightarrow> Inl p
                | Inr others \<Rightarrow>
                    Inr ((if MsgPosition.ChannelName dml = MsgPosition.ChannelName position
                             \<and> MsgPosition.Timestamp dml > MsgPosition.Timestamp position
                          then [seg] else []) @ others))))"

text \<open>Lines 355-365, over the dropped segments of all infos.\<close>

primrec droppedCheckPoints :: "MsgPosition list \<Rightarrow> SegmentInfo option list \<Rightarrow> panic + SegmentInfo list" where
  "droppedCheckPoints positions [] = Inr []"
| "droppedCheckPoints positions (droppedSegment # rest) =
     (case droppedMatches droppedSegment positions of
        Inl p \<Rightarrow> Inl p
      | Inr found \<Rightarrow>
          (case droppedCheckPoints positions rest of
             Inl p \<Rightarrow> Inl p
           | Inr others \<Rightarrow> Inr (found @ others)))"

text \<open>
  Lines 382-400, the body of the loop over \<^verbatim>\<open>channel2FlowGraph\<close>, for one entry.
  \<^verbatim>\<open>err\<close> is nil on entry; the result is \<^verbatim>\<open>err\<close> at the \<^verbatim>\<open>break\<close> or at the end.
\<close>

definition watchDm_attachOne ::
  "env \<Rightarrow> (Channel \<times> Channel) list \<Rightarrow> string \<Rightarrow> (Channel \<times> MsgPosition option) list \<Rightarrow>
   (Channel \<times> MsgPosition) list \<Rightarrow> Channel \<times> queryNodeFlowGraph \<Rightarrow> QueryNode \<Rightarrow>
   error option \<times> QueryNode" where
  "watchDm_attachOne env VPChannels consumeSubName channel2AsConsumerPosition channel2SeekPosition
     entry n =
     (case entry of (channel, fg) \<Rightarrow>
        (case (if map_of channel2AsConsumerPosition channel \<noteq> None
               then consumeFlowGraph env fg (goLookupString VPChannels channel) consumeSubName n
               else (None, n)) of
           (Some e, n1) \<Rightarrow> (Some e, n1)
         | (None, n1) \<Rightarrow>
             (case map_of channel2SeekPosition channel of
                None \<Rightarrow> (None, n1)
              | Some pos \<Rightarrow>
                  seekQueryNodeFlowGraph env fg
                    (pos\<lparr>MsgPosition.ChannelName := goLookupString VPChannels channel,
                         MsgGroup := consumeSubName\<rparr>) n1)))"

text \<open>Lines 381-401: the entries come in the order of the visit.\<close>

definition watchDm_attach ::
  "env \<Rightarrow> (Channel \<times> Channel) list \<Rightarrow> string \<Rightarrow> (Channel \<times> MsgPosition option) list \<Rightarrow>
   (Channel \<times> MsgPosition) list \<Rightarrow> (Channel \<times> queryNodeFlowGraph) list \<Rightarrow> QueryNode \<Rightarrow>
   error option \<times> QueryNode" where
  "watchDm_attach env VPChannels consumeSubName channel2AsConsumerPosition channel2SeekPosition
     entries n =
     untilError (watchDm_attachOne env VPChannels consumeSubName channel2AsConsumerPosition
                   channel2SeekPosition) entries n"

text \<open>Lines 405-412: close every created flow-graph, then remove them from the service.\<close>

definition watchDm_rollback :: "env \<Rightarrow> (Channel \<times> queryNodeFlowGraph) list \<Rightarrow> QueryNode \<Rightarrow> QueryNode" where
  "watchDm_rollback env channel2FlowGraph n =
     removeFlowGraphsByDMLChannels (map fst (rangeOver (rangeSeed env 2) channel2FlowGraph))
       (fold (\<lambda>(channel, fg). flowGraph_Close fg) (rangeOver (rangeSeed env 1) channel2FlowGraph) n)"

text \<open>Lines 434-446, the body of the loop for one dml channel.\<close>

definition watchDm_queryShard :: "env \<Rightarrow> UniqueID \<Rightarrow> int \<Rightarrow> Channel \<Rightarrow> QueryNode \<Rightarrow> QueryNode" where
  "watchDm_queryShard env cid rid dmlChannel n =
     (let n1 = (if \<not> hasQueryShard dmlChannel n then addQueryShard env cid dmlChannel rid n else n)
      in case getQueryShard dmlChannel n1 of
           Inl e \<Rightarrow> n1
         | Inr qs \<Rightarrow> snd (watchDMLTSafe env dmlChannel n1))"

text \<open>
  Lines 418-447: collection metadata in both replicas, tSafe per vchannel, query shards
  and their DML tSafe watch.
\<close>

definition watchDm_register ::
  "env \<Rightarrow> WatchDmChannelsRequest \<Rightarrow> LoadType \<Rightarrow> Channel list \<Rightarrow> Channel list \<Rightarrow> QueryNode \<Rightarrow> QueryNode" where
  "watchDm_register env r lType vChans pChans n =
     (let cid = Request.CollectionID r;
          n1 = setLoadType streamingReplica cid lType
                 (addPChannels streamingReplica cid pChans
                   (addVChannels streamingReplica cid vChans n));
          n2 = setLoadType historicalReplica cid lType
                 (addPChannels historicalReplica cid pChans
                   (addVChannels historicalReplica cid vChans n1));
          n3 = fold addTSafe vChans n2
      in fold (watchDm_queryShard env cid (ReplicaID r)) vChans n3)"

text \<open>Lines 418-452: the above, and last the start of the flow-graphs.\<close>

definition watchDm_finish ::
  "env \<Rightarrow> WatchDmChannelsRequest \<Rightarrow> LoadType \<Rightarrow> Channel list \<Rightarrow> Channel list \<Rightarrow>
   (Channel \<times> queryNodeFlowGraph) list \<Rightarrow> QueryNode \<Rightarrow> QueryNode" where
  "watchDm_finish env r lType vChans pChans channel2FlowGraph n =
     fold (\<lambda>(channel, fg). flowGraph_Start fg) (rangeOver (rangeSeed env 3) channel2FlowGraph)
       (watchDm_register env r lType vChans pChans n)"

text \<open>
  Lines 301-456, after the growing segments are loaded and the deferred removal is
  armed. A panic runs the deferred function with \<^verbatim>\<open>err == nil\<close>, which does nothing.
\<close>

definition watchDm_afterLoad ::
  "env \<Rightarrow> WatchDmChannelsRequest \<Rightarrow> LoadType \<Rightarrow> VchannelInfo list \<Rightarrow> SegmentInfo list \<Rightarrow>
   UniqueID list \<Rightarrow> QueryNode \<Rightarrow> outcome" where
  "watchDm_afterLoad env r lType infos unFlushedCheckPointInfos unFlushedSegmentIDs n =
     (let collectionID = Request.CollectionID r;
          (vChans, pChans, VPChannels) = physicalChannels env infos;
          consumeSubName = GenChannelSubName env (QueryNodeSubName env) collectionID (GetNodeID env);
          (channel2SeekPosition, channel2AsConsumerPosition) = groupChannels consumeSubName infos;
          n1 = addExcludedSegments streamingReplica collectionID unFlushedCheckPointInfos n
      in case flushedCheckPoints (map snd channel2SeekPosition)
                (concat (map FlushedSegments infos)) of
           Inl p \<Rightarrow> Panic p n1
         | Inr flushedCheckPointInfos \<Rightarrow>
            (let n2 = addExcludedSegments streamingReplica collectionID flushedCheckPointInfos n1
             in case droppedCheckPoints (map snd channel2SeekPosition)
                       (concat (map DroppedSegments infos)) of
                  Inl p \<Rightarrow> Panic p n2
                | Inr droppedCheckPointInfos \<Rightarrow>
                   (let n3 = addExcludedSegments streamingReplica collectionID droppedCheckPointInfos n2
                    in case addFlowGraphsForDMLChannels env collectionID vChans n3 of
                         (Inl e, n4) \<Rightarrow> Return (Some e) (watchDm_removeGrowing unFlushedSegmentIDs n4)
                       | (Inr channel2FlowGraph, n4) \<Rightarrow>
                          (case watchDm_attach env VPChannels consumeSubName
                                  channel2AsConsumerPosition channel2SeekPosition
                                  (rangeOver (rangeSeed env 0) channel2FlowGraph) n4 of
                             (Some e, n5) \<Rightarrow>
                               Return (Some e)
                                 (watchDm_removeGrowing unFlushedSegmentIDs
                                   (watchDm_rollback env channel2FlowGraph n5))
                           | (None, n5) \<Rightarrow>
                               Return None
                                 (watchDm_finish env r lType vChans pChans channel2FlowGraph n5)))))"

text \<open>
  Lines 189-456. A nil entry of \<^verbatim>\<open>Infos\<close> or of \<^verbatim>\<open>UnflushedSegments\<close> panics in the
  loop that first reads it (\<open>those\<close> is \<open>None\<close>); nil \<^verbatim>\<open>Schema\<close> panics at the log of
  line 220, nil \<^verbatim>\<open>Base\<close> at line 260.
\<close>

definition watchDmChannelsTask_Execute :: "env \<Rightarrow> watchDmChannelsTask \<Rightarrow> QueryNode \<Rightarrow> outcome" where
  "watchDmChannelsTask_Execute env w node =
     (let n0 = node\<lparr>calls := []\<rparr>
      in case req w of
           None \<Rightarrow> Panic NilPointerDereference n0
         | Some r \<Rightarrow>
            (let collectionID = Request.CollectionID r;
                 lType = determineLoadType r
             in case those (WatchDmChannelsRequest.Infos r) of
                  None \<Rightarrow> Panic NilPointerDereference n0
                | Some infos \<Rightarrow>
                   (let (vChans, pChans, VPChannels) = physicalChannels env infos
                    in if length VPChannels \<noteq> length vChans
                       then Return (Some (IllegalChannelLength collectionID)) n0
                       else (case WatchDmChannelsRequest.Schema r of
                              None \<Rightarrow> Panic NilPointerDereference n0
                            | Some sch \<Rightarrow>
                               (let n1 = watchDm_initMeta r vChans n0
                                in case those (concat (map UnflushedSegments infos)) of
                                     None \<Rightarrow> Panic NilPointerDereference n1
                                   | Some ufInfos \<Rightarrow>
                                      (let loaded = filter (\<lambda>ufInfo. length (Binlogs ufInfo) > 0) ufInfos;
                                           unFlushedSegments = map toLoadInfo loaded;
                                           unFlushedSegmentIDs = map ID loaded
                                       in case Base r of
                                            None \<Rightarrow> Panic NilPointerDereference n1
                                          | Some base \<Rightarrow>
                                             (let lreq = \<lparr>Base = Some \<lparr>MsgType = MsgType_LoadSegments,
                                                                         MsgBase.MsgID = MsgBase.MsgID base,
                                                                         MsgBase.Timestamp = 0\<rparr>,
                                                          CollectionID = collectionID,
                                                          Infos = unFlushedSegments,
                                                          Schema = WatchDmChannelsRequest.Schema r,
                                                          LoadMeta = WatchDmChannelsRequest.LoadMeta r\<rparr>;
                                                  n2 = watchDm_updatePartitions collectionID lreq n1
                                              in case loadSegment env lreq segmentTypeGrowing n2 of
                                                   (Some e, n3) \<Rightarrow> Return (Some e) n3
                                                 | (None, n3) \<Rightarrow>
                                                     watchDm_afterLoad env r lType infos ufInfos
                                                       unFlushedSegmentIDs n3)))))))"

subsection \<open>watchDeltaChannelsTask.Execute\<close>

text \<open>Lines 536-546, the body of the loop over \<^verbatim>\<open>channel2FlowGraph\<close>, for one entry.\<close>

definition watchDelta_attachOne ::
  "env \<Rightarrow> UniqueID \<Rightarrow> (Channel \<times> Channel) list \<Rightarrow> string \<Rightarrow> (Channel \<times> MsgPosition option) list \<Rightarrow>
   Channel \<times> queryNodeFlowGraph \<Rightarrow> QueryNode \<Rightarrow> error option \<times> QueryNode" where
  "watchDelta_attachOne env collectionID VPDeltaChannels consumeSubName vChannel2SeekPosition entry n =
     (case entry of (channel, fg) \<Rightarrow>
        (case consumeFlowGraphFromLatest env fg (goLookupString VPDeltaChannels channel)
                consumeSubName n of
           (Some e, n1) \<Rightarrow> (Some e, n1)
         | (None, n1) \<Rightarrow>
             loader_FromDmlCPLoadDelete env collectionID
               (goLookupPtr vChannel2SeekPosition channel) n1))"

text \<open>Lines 535-547.\<close>

definition watchDelta_attach ::
  "env \<Rightarrow> UniqueID \<Rightarrow> (Channel \<times> Channel) list \<Rightarrow> string \<Rightarrow> (Channel \<times> MsgPosition option) list \<Rightarrow>
   (Channel \<times> queryNodeFlowGraph) list \<Rightarrow> QueryNode \<Rightarrow> error option \<times> QueryNode" where
  "watchDelta_attach env collectionID VPDeltaChannels consumeSubName vChannel2SeekPosition entries n =
     untilError (watchDelta_attachOne env collectionID VPDeltaChannels consumeSubName
                   vChannel2SeekPosition) entries n"

text \<open>Lines 550-557.\<close>

definition watchDelta_rollback :: "env \<Rightarrow> (Channel \<times> queryNodeFlowGraph) list \<Rightarrow> QueryNode \<Rightarrow> QueryNode" where
  "watchDelta_rollback env channel2FlowGraph n =
     removeFlowGraphsByDeltaChannels (map fst (rangeOver (rangeSeed env 2) channel2FlowGraph))
       (fold (\<lambda>(channel, fg). flowGraph_Close fg) (rangeOver (rangeSeed env 1) channel2FlowGraph) n)"

text \<open>Lines 577-594, the body of the loop for one delta channel.\<close>

definition watchDelta_queryShard :: "env \<Rightarrow> UniqueID \<Rightarrow> int \<Rightarrow> Channel \<Rightarrow> QueryNode \<Rightarrow> QueryNode" where
  "watchDelta_queryShard env cid rid channel n =
     (case ConvertChannelName env channel (RootCoordDelta env) (RootCoordDml env) of
        Inl e \<Rightarrow> n
      | Inr dmlChannel \<Rightarrow>
          (let n1 = (if \<not> hasQueryShard dmlChannel n then addQueryShard env cid dmlChannel rid n else n)
           in case getQueryShard dmlChannel n1 of
                Inl e \<Rightarrow> n1
              | Inr qs \<Rightarrow> snd (watchDeltaTSafe env dmlChannel n1)))"

text \<open>Lines 564-595.\<close>

definition watchDelta_register ::
  "env \<Rightarrow> WatchDeltaChannelsRequest \<Rightarrow> Channel list \<Rightarrow> Channel list \<Rightarrow> QueryNode \<Rightarrow> QueryNode" where
  "watchDelta_register env r vDeltaChans pDeltaChans n =
     (let cid = Request.CollectionID r;
          n1 = addPDeltaChannels historicalReplica cid pDeltaChans
                 (addVDeltaChannels historicalReplica cid vDeltaChans n);
          n2 = addPDeltaChannels streamingReplica cid pDeltaChans
                 (addVDeltaChannels streamingReplica cid vDeltaChans n1);
          n3 = fold addTSafe vDeltaChans n2
      in fold (watchDelta_queryShard env cid (ReplicaId r)) vDeltaChans n3)"

text \<open>Lines 564-600: the above, and last the start of the flow-graphs.\<close>

definition watchDelta_finish ::
  "env \<Rightarrow> WatchDeltaChannelsRequest \<Rightarrow> Channel list \<Rightarrow> Channel list \<Rightarrow>
   (Channel \<times> queryNodeFlowGraph) list \<Rightarrow> QueryNode \<Rightarrow> QueryNode" where
  "watchDelta_finish env r vDeltaChans pDeltaChans channel2FlowGraph n =
     fold (\<lambda>(channel, fg). flowGraph_Start fg) (rangeOver (rangeSeed env 3) channel2FlowGraph)
       (watchDelta_register env r vDeltaChans pDeltaChans n)"

text \<open>Lines 484-604.\<close>

definition watchDeltaChannelsTask_Execute :: "env \<Rightarrow> watchDeltaChannelsTask \<Rightarrow> QueryNode \<Rightarrow> outcome" where
  "watchDeltaChannelsTask_Execute env w node =
     (let n0 = node\<lparr>calls := []\<rparr>
      in case req w of
           None \<Rightarrow> Panic NilPointerDereference n0
         | Some r \<Rightarrow>
            (let collectionID = Request.CollectionID r
             in case those (WatchDeltaChannelsRequest.Infos r) of
                  None \<Rightarrow> Panic NilPointerDereference n0
                | Some infos \<Rightarrow>
                   (let (vDeltaChans, pDeltaChans, VPDeltaChannels) = physicalChannels env infos;
                        vChannel2SeekPosition =
                          fold (\<lambda>info m. AList.update (VchannelInfo.ChannelName info)
                                            (VchannelInfo.SeekPosition info) m) infos []
                    in if length VPDeltaChannels \<noteq> length vDeltaChans
                       then Return (Some (IllegalChannelLength collectionID)) n0
                       else if \<not> hasCollection historicalReplica collectionID n0
                       then Return (Some (CannotFindCollection collectionID)) n0
                       else (case getCollectionByID historicalReplica collectionID n0 of
                         Inl err \<Rightarrow> Return (Some err) n0
                       | Inr hCol \<Rightarrow>
                          (if \<not> hasCollection streamingReplica collectionID n0
                           then Return (Some (CannotFindCollection collectionID)) n0
                           else (case getCollectionByID streamingReplica collectionID n0 of
                             Inl err \<Rightarrow> Return (Some err) n0
                           | Inr sCol \<Rightarrow>
                              (case addFlowGraphsForDeltaChannels env collectionID vDeltaChans n0 of
                                 (Inl e, n1) \<Rightarrow> Return (Some e) n1
                               | (Inr channel2FlowGraph, n1) \<Rightarrow>
                                  (let consumeSubName = GenChannelSubName env (QueryNodeSubName env)
                                                          collectionID (GetNodeID env)
                                   in case watchDelta_attach env collectionID VPDeltaChannels
                                             consumeSubName vChannel2SeekPosition
                                             (rangeOver (rangeSeed env 0) channel2FlowGraph) n1 of
                                        (Some e, n2) \<Rightarrow>
                                          Return (Some e) (watchDelta_rollback env channel2FlowGraph n2)
                                      | (None, n2) \<Rightarrow>
                                          Return None
                                            (watchDelta_finish env r vDeltaChans pDeltaChans
                                               channel2FlowGraph n2)))))))))"

subsection \<open>loadSegmentsTask.Execute\<close>

text \<open>Lines 642-649, the body of the loop for one partition-id.\<close>

definition loadSegments_addPartition :: "UniqueID \<Rightarrow> UniqueID \<Rightarrow> QueryNode \<Rightarrow> error option \<times> QueryNode" where
  "loadSegments_addPartition collectionID partitionID n =
     (case addPartition historicalReplica collectionID partitionID n of
        (Some e, n1) \<Rightarrow> (Some e, n1)
      | (None, n1) \<Rightarrow> addPartition streamingReplica collectionID partitionID n1)"

text \<open>Lines 641-650: the first error of \<^verbatim>\<open>addPartition\<close> is returned.\<close>

definition loadSegments_addPartitions :: "UniqueID \<Rightarrow> UniqueID list \<Rightarrow> QueryNode \<Rightarrow> error option \<times> QueryNode" where
  "loadSegments_addPartitions collectionID partitionIDs n =
     untilError (loadSegments_addPartition collectionID) partitionIDs n"

text \<open>Lines 632-660. The first statement logs \<^verbatim>\<open>l.req.Base.MsgID\<close>.\<close>

definition loadSegmentsTask_Execute :: "env \<Rightarrow> loadSegmentsTask \<Rightarrow> QueryNode \<Rightarrow> outcome" where
  "loadSegmentsTask_Execute env l node =
     (let n0 = node\<lparr>calls := []\<rparr>
      in case req l of
           None \<Rightarrow> Panic NilPointerDereference n0
         | Some r \<Rightarrow>
            (case Base r of
               None \<Rightarrow> Panic NilPointerDereference n0
             | Some base \<Rightarrow>
                (let collectionID = Request.CollectionID r;
                     n1 = addCollection streamingReplica collectionID (LoadSegmentsRequest.Schema r)
                            (addCollection historicalReplica collectionID (LoadSegmentsRequest.Schema r) n0)
                 in case loadSegments_addPartitions collectionID
                           (case LoadSegmentsRequest.LoadMeta r of
                              None \<Rightarrow> []
                            | Some lm \<Rightarrow> LoadMetaInfo.PartitionIDs lm) n1 of
                      (Some e, n2) \<Rightarrow> Return (Some e) n2
                    | (None, n2) \<Rightarrow>
                       (case loadSegment env r segmentTypeSealed n2 of
                          (Some e, n3) \<Rightarrow> Return (Some e) n3
                        | (None, n3) \<Rightarrow> Return None n3))))"

subsection \<open>releaseCollectionTask.Execute\<close>

datatype ReplicaType = replicaNone | replicaStreaming | replicaHistorical

text \<open>
  Lines 725-766. \<^verbatim>\<open>r.req.Base.Timestamp\<close> is read at line 736, with the query lock
  held. The sleep of one second and the logs have no part in the model.
\<close>

definition releaseCollectionTask_releaseReplica ::
  "ReleaseCollectionRequest \<Rightarrow> replicaRef \<Rightarrow> ReplicaType \<Rightarrow> QueryNode \<Rightarrow> outcome" where
  "releaseCollectionTask_releaseReplica r replica replicaType n =
     (let n1 = queryLock replica n
      in case getCollectionByID replica (Request.CollectionID r) n1 of
           Inl err \<Rightarrow> Return (Some err) (queryUnlock replica n1)
         | Inr collection \<Rightarrow>
            (case Base r of
               None \<Rightarrow> Panic NilPointerDereference n1
             | Some base \<Rightarrow>
                (let n2 = queryUnlock replica
                            (setReleaseTime replica (Request.CollectionID r) (MsgBase.Timestamp base) n1);
                     channels = (if replicaType = replicaStreaming
                                 then vChannels collection else vDeltaChannels collection);
                     n3 = (if replicaType = replicaStreaming
                           then removeFlowGraphsByDMLChannels channels n2
                           else removeFlowGraphsByDeltaChannels channels n2);
                     n4 = fold removeTSafe channels n3;
                     n5 = removeExcludedSegments replica (Request.CollectionID r) n4
                 in case removeCollection replica (Request.CollectionID r) n5 of
                      (Some err, n6) \<Rightarrow> Return (Some err) n6
                    | (None, n6) \<Rightarrow> Return None n6)))"

text \<open>Lines 696-723.\<close>

definition releaseCollectionTask_Execute :: "releaseCollectionTask \<Rightarrow> QueryNode \<Rightarrow> outcome" where
  "releaseCollectionTask_Execute t node =
     (let n0 = node\<lparr>calls := []\<rparr>
      in case req t of
           None \<Rightarrow> Panic NilPointerDereference n0
         | Some r \<Rightarrow>
            (case releaseCollectionTask_releaseReplica r streamingReplica replicaStreaming n0 of
               Panic p n1 \<Rightarrow> Panic p n1
             | Return (Some err) n1 \<Rightarrow>
                 Return (Some (ReleaseCollectionFailed (Request.CollectionID r) err)) n1
             | Return None n1 \<Rightarrow>
                (case releaseCollectionTask_releaseReplica r historicalReplica replicaHistorical n1 of
                   Panic p n2 \<Rightarrow> Panic p n2
                 | Return (Some err) n2 \<Rightarrow>
                     Return (Some (ReleaseCollectionFailed (Request.CollectionID r) err)) n2
                 | Return None n2 \<Rightarrow>
                     Return None (queryShardService_releaseCollection (Request.CollectionID r) n2))))"

subsection \<open>releasePartitionsTask.Execute\<close>

text \<open>Lines 815-831, the body of the loop for one partition-id.\<close>

definition releasePartitions_one :: "env \<Rightarrow> UniqueID \<Rightarrow> QueryNode \<Rightarrow> QueryNode" where
  "releasePartitions_one env pid n =
     (let n1 = (if hasPartition historicalReplica pid n
                then snd (removePartition env historicalReplica pid n) else n)
      in if hasPartition streamingReplica pid n1
         then snd (removePartition env streamingReplica pid n1) else n1)"

text \<open>Lines 794-838.\<close>

definition releasePartitionsTask_Execute :: "env \<Rightarrow> releasePartitionsTask \<Rightarrow> QueryNode \<Rightarrow> outcome" where
  "releasePartitionsTask_Execute env t node =
     (let n0 = node\<lparr>calls := []\<rparr>
      in case req t of
           None \<Rightarrow> Panic NilPointerDereference n0
         | Some r \<Rightarrow>
            (case getCollectionByID historicalReplica (Request.CollectionID r) n0 of
               Inl err \<Rightarrow> Return (Some (ReleasePartitionsFailed (Request.CollectionID r) err)) n0
             | Inr hCol \<Rightarrow>
                (case getCollectionByID streamingReplica (Request.CollectionID r) n0 of
                   Inl err \<Rightarrow> Return (Some (ReleasePartitionsFailed (Request.CollectionID r) err)) n0
                 | Inr sCol \<Rightarrow>
                     Return None
                       (fold (releasePartitions_one env) (ReleasePartitionsRequest.PartitionIDs r) n0))))"

subsection \<open>Reading an outcome and its calls\<close>

definition nodeOf :: "outcome \<Rightarrow> QueryNode" where
  "nodeOf out = (case out of Panic p n \<Rightarrow> n | Return e n \<Rightarrow> n)"

text \<open>\<^verbatim>\<open>Start\<close> of a flow-graph.\<close>

definition isStart :: "call \<Rightarrow> bool" where
  "isStart c = (case c of FlowGraphStart ch \<Rightarrow> True | _ \<Rightarrow> False)"

text \<open>A consume or seek call on a DML flow-graph that returned an error.\<close>

definition attachFailed :: "call \<Rightarrow> bool" where
  "attachFailed c =
     (case c of
        ConsumeFlowGraph ch pch sub res \<Rightarrow> res \<noteq> None
      | SeekQueryNodeFlowGraph ch pos res \<Rightarrow> res \<noteq> None
      | _ \<Rightarrow> False)"

text \<open>
  A consume (from a position, or from latest) or seek call on the flow-graph of channel
  \<open>ch\<close> that returned nil.
\<close>

definition attachedOK :: "Channel \<Rightarrow> call \<Rightarrow> bool" where
  "attachedOK ch c =
     (case c of
        ConsumeFlowGraph ch' pch sub res \<Rightarrow> ch' = ch \<and> res = None
      | ConsumeFlowGraphFromLatest ch' pch sub res \<Rightarrow> ch' = ch \<and> res = None
      | SeekQueryNodeFlowGraph ch' pos res \<Rightarrow> ch' = ch \<and> res = None
      | _ \<Rightarrow> False)"

text \<open>Lines 418-424: the six calls that update the collection in both replicas.\<close>

definition watchDm_metadataCalls :: "UniqueID \<Rightarrow> LoadType \<Rightarrow> Channel list \<Rightarrow> Channel list \<Rightarrow> call list" where
  "watchDm_metadataCalls cid lType vs ps =
     [AddVChannels streamingReplica cid vs, AddPChannels streamingReplica cid ps,
      SetLoadType streamingReplica cid lType,
      AddVChannels historicalReplica cid vs, AddPChannels historicalReplica cid ps,
      SetLoadType historicalReplica cid lType]"

text \<open>Lines 564-568: the four calls that update the collection in both replicas.\<close>

definition watchDelta_metadataCalls :: "UniqueID \<Rightarrow> Channel list \<Rightarrow> Channel list \<Rightarrow> call list" where
  "watchDelta_metadataCalls cid vs ps =
     [AddVDeltaChannels historicalReplica cid vs, AddPDeltaChannels historicalReplica cid ps,
      AddVDeltaChannels streamingReplica cid vs, AddPDeltaChannels streamingReplica cid ps]"

text \<open>Neither a start nor a failed consume or seek.\<close>

definition quiet :: "call \<Rightarrow> bool" where
  "quiet c = (\<not> isStart c \<and> \<not> attachFailed c)"

text \<open>The calls of \<open>n'\<close> are those of \<open>n\<close> followed by calls that satisfy \<open>P\<close>.\<close>

definition extends :: "(call \<Rightarrow> bool) \<Rightarrow> QueryNode \<Rightarrow> QueryNode \<Rightarrow> bool" where
  "extends P n n' = (length (calls n) \<le> length (calls n')
                     \<and> take (length (calls n)) (calls n') = calls n
                     \<and> list_all P (drop (length (calls n)) (calls n')))"

subsection \<open>The id that OnEnqueue assigns\<close>

text \<open>\<^verbatim>\<open>Base.MsgID\<close> when the request and its \<^verbatim>\<open>Base\<close> are present.\<close>

definition presentMsgID :: "'a Request_scheme option \<Rightarrow> UniqueID option" where
  "presentMsgID rq = (case rq of None \<Rightarrow> None | Some q \<Rightarrow> map_option MsgBase.MsgID (Base q))"

definition enqueuedID :: "int \<Rightarrow> 'a Request_scheme option \<Rightarrow> UniqueID" where
  "enqueuedID v rq = (case presentMsgID rq of Some m \<Rightarrow> m | None \<Rightarrow> rand_Int63n 100000000000 v)"

subsection \<open>Concrete inputs\<close>

text \<open>
  A node with empty registries, an environment in which every collaborator call
  succeeds, one in which every seek fails, and the request of the spec's first scenario
  (one channel with a seek position at timestamp 500 and one unflushed segment, 7).
\<close>

definition env_ok :: env where
  "env_ok =
     \<lparr>QueryNodeSubName = ''queryNode'', GetNodeID = 1,
      RootCoordDelta = ''delta'', RootCoordDml = ''dml'',
      ToPhysicalChannel = (\<lambda>v. takeWhile (\<lambda>c. c \<noteq> CHR ''_'') v),
      GenChannelSubName = (\<lambda>prefix cid nodeID. prefix),
      ConvertChannelName = (\<lambda>ch old new. Inr (new @ drop (length old) ch)),
      loadSegmentResult = (\<lambda>lreq ty. None),
      FromDmlCPLoadDeleteResult = (\<lambda>cid pos. None),
      addFlowGraphsForDMLChannelsResult = (\<lambda>cid chs. None),
      addFlowGraphsForDeltaChannelsResult = (\<lambda>cid chs. None),
      consumeFlowGraphResult = (\<lambda>ch pch sub. None),
      consumeFlowGraphFromLatestResult = (\<lambda>ch pch sub. None),
      seekQueryNodeFlowGraphResult = (\<lambda>ch pos. None),
      addQueryShardResult = (\<lambda>cid ch rid. None),
      watchDMLTSafeResult = (\<lambda>ch. None),
      watchDeltaTSafeResult = (\<lambda>ch. None),
      removePartitionResult = (\<lambda>ref pid. None),
      rangeSeed = (\<lambda>k. [])\<rparr>"

definition env_seekFails :: env where
  "env_seekFails =
     env_ok\<lparr>seekQueryNodeFlowGraphResult := (\<lambda>ch pos. Some (CollaboratorError ''seek failed''))\<rparr>"

definition emptyReplica :: Replica where
  "emptyReplica = \<lparr>collections = Map.empty, partitions = Map.empty, segments = Map.empty,
                    excludedSegments = Map.empty, queryLocked = False\<rparr>"

definition emptyNode :: QueryNode where
  "emptyNode = \<lparr>streaming = emptyReplica, historical = emptyReplica,
                 dmlChannel2FlowGraph = Map.empty, deltaChannel2FlowGraph = Map.empty,
                 tSafes = {}, queryShards = Map.empty, shardClusters = {}, calls = []\<rparr>"

definition segment7 :: SegmentInfo where
  "segment7 = \<lparr>ID = 7, CollectionID = 100, PartitionID = 1, NumOfRows = 10, DmlPosition = None,
                Binlogs = [''binlog''], Statslogs = [], Deltalogs = []\<rparr>"

definition watchDmRequest :: WatchDmChannelsRequest where
  "watchDmRequest =
     \<lparr>Base = Some \<lparr>MsgType = MsgType_other 0, MsgBase.MsgID = 1, MsgBase.Timestamp = 600\<rparr>,
      CollectionID = 100,
      WatchDmChannelsRequest.PartitionIDs = [],
      WatchDmChannelsRequest.Infos =
        [Some \<lparr>VchannelInfo.ChannelName = ''dml_0'',
               VchannelInfo.SeekPosition =
                 Some \<lparr>MsgPosition.ChannelName = ''dml_0'', MsgPosition.MsgID = [120],
                       MsgGroup = [], MsgPosition.Timestamp = 500\<rparr>,
               UnflushedSegments = [Some segment7], FlushedSegments = [],
               DroppedSegments = []\<rparr>],
      WatchDmChannelsRequest.Schema = Some \<lparr>Name = ''c''\<rparr>,
      WatchDmChannelsRequest.LoadMeta =
        Some \<lparr>LoadType = LoadType_LoadCollection, LoadMetaInfo.PartitionIDs = []\<rparr>,
      ReplicaID = 1\<rparr>"

definition watchDmTask :: watchDmChannelsTask where
  "watchDmTask = \<lparr>id' = 1, req = Some watchDmRequest\<rparr>"

text \<open>
  A node that holds collection 100 in both replicas, and a WatchDeltaChannels request
  for it with one delta channel.
\<close>

definition node100 :: QueryNode where
  "node100 =
     emptyNode\<lparr>streaming := emptyReplica\<lparr>collections := [100 \<mapsto> newCollection 100 None]\<rparr>,
               historical := emptyReplica\<lparr>collections := [100 \<mapsto> newCollection 100 None]\<rparr>\<rparr>"

definition deltaInfo :: VchannelInfo where
  "deltaInfo =
     \<lparr>VchannelInfo.ChannelName = ''delta_0'',
      VchannelInfo.SeekPosition =
        Some \<lparr>MsgPosition.ChannelName = ''dml_0'', MsgPosition.MsgID = [120],
              MsgGroup = [], MsgPosition.Timestamp = 500\<rparr>,
      UnflushedSegments = [], FlushedSegments = [], DroppedSegments = []\<rparr>"

definition watchDeltaTask :: watchDeltaChannelsTask where
  "watchDeltaTask =
     \<lparr>id' = 2,
      req = Some \<lparr>Base = Some \<lparr>MsgType = MsgType_other 0, MsgBase.MsgID = 2, MsgBase.Timestamp = 700\<rparr>,
                  CollectionID = 100,
                  WatchDeltaChannelsRequest.Infos = [Some deltaInfo],
                  ReplicaId = 1\<rparr>\<rparr>"

section \<open>Properties\<close>

subsection \<open>Calls and frames of the stages\<close>

lemma extends_iff: "extends P n n' \<longleftrightarrow> (\<exists>cs. calls n' = calls n @ cs \<and> list_all P cs)"
  unfolding extends_def
  by (metis append_eq_conv_conj append_take_drop_id length_append le_add1)

lemma extends_refl: "extends P n n"
  by (simp add: extends_iff)

lemma extends_trans: "extends P a b \<Longrightarrow> extends P b c \<Longrightarrow> extends P a c"
  by (auto simp: extends_iff)

lemma extends_mono: "extends P a b \<Longrightarrow> (\<And>c. P c \<Longrightarrow> Q c) \<Longrightarrow> extends Q a b"
  by (auto simp: extends_iff list_all_iff)

lemma extends_called: "P c \<Longrightarrow> calls n' = calls n \<Longrightarrow> extends P n (called c n')"
  by (simp add: extends_iff called_def)

lemma extends_fold: "(\<And>x s. extends P s (g x s)) \<Longrightarrow> extends P s (fold g xs s)"
  by (induction xs arbitrary: s) (auto intro: extends_refl extends_trans)

lemma extends_subset: "extends P n n' \<Longrightarrow> set (calls n) \<subseteq> set (calls n')"
  by (auto simp: extends_iff)

lemma extends_all: "extends P n n' \<Longrightarrow> list_all P (calls n) \<Longrightarrow> list_all P (calls n')"
  by (auto simp: extends_iff)

lemma fold_frame: "(\<And>x s. f (g x s) = f s) \<Longrightarrow> f (fold g xs s) = f s"
  by (induction xs arbitrary: s) auto

lemmas prim_defs = onCollection_def
  addCollection_def addPartition_def removePartition_def removeCollection_def
  addExcludedSegments_def removeExcludedSegments_def removeSegment_def queryLock_def
  queryUnlock_def addVChannels_def addPChannels_def addVDeltaChannels_def
  addPDeltaChannels_def setLoadType_def setReleaseTime_def addShardCluster_def
  loadSegment_def loader_FromDmlCPLoadDelete_def addFlowGraphsForDMLChannels_def
  addFlowGraphsForDeltaChannels_def removeFlowGraphsByDMLChannels_def
  removeFlowGraphsByDeltaChannels_def consumeFlowGraph_def consumeFlowGraphFromLatest_def
  seekQueryNodeFlowGraph_def flowGraph_Close_def flowGraph_Start_def addTSafe_def
  removeTSafe_def addQueryShard_def watchDMLTSafe_def watchDeltaTSafe_def
  queryShardService_releaseCollection_def

lemma called_simps [simp]:
  "calls (called c s) = calls s @ [c]"
  "streaming (called c s) = streaming s"
  "historical (called c s) = historical s"
  "dmlChannel2FlowGraph (called c s) = dmlChannel2FlowGraph s"
  "deltaChannel2FlowGraph (called c s) = deltaChannel2FlowGraph s"
  "tSafes (called c s) = tSafes s"
  "queryShards (called c s) = queryShards s"
  "shardClusters (called c s) = shardClusters s"
  by (simp_all add: called_def)

lemma onReplica_simps [simp]:
  "calls (onReplica ref f s) = calls s"
  "streaming (onReplica ref f s) = (if ref = streamingReplica then f (streaming s) else streaming s)"
  "historical (onReplica ref f s) = (if ref = historicalReplica then f (historical s) else historical s)"
  "dmlChannel2FlowGraph (onReplica ref f s) = dmlChannel2FlowGraph s"
  "deltaChannel2FlowGraph (onReplica ref f s) = deltaChannel2FlowGraph s"
  "tSafes (onReplica ref f s) = tSafes s"
  "queryShards (onReplica ref f s) = queryShards s"
  "shardClusters (onReplica ref f s) = shardClusters s"
  by (cases ref; simp add: onReplica_def)+

lemma replicaOf_simps [simp]:
  "replicaOf streamingReplica s = streaming s"
  "replicaOf historicalReplica s = historical s"
  by (simp_all add: replicaOf_def)

lemma calls_fold:
  "(\<And>x s. calls (g x s) = calls s @ h x) \<Longrightarrow> calls (fold g xs s) = calls s @ concat (map h xs)"
  by (induction xs arbitrary: s) auto

lemma calls_fold1:
  "(\<And>x s. calls (g x s) = calls s @ [h x]) \<Longrightarrow> calls (fold g xs s) = calls s @ map h xs"
  by (induction xs arbitrary: s) auto

subsection \<open>initMeta\<close>

lemma calls_watchDm_initMeta:
  "calls (watchDm_initMeta r vs n) =
     calls n @ AddCollection streamingReplica (Request.CollectionID r)
             # AddCollection historicalReplica (Request.CollectionID r)
             # map (AddShardCluster (Request.CollectionID r) (ReplicaID r)) vs"
  unfolding watchDm_initMeta_def
  by (subst calls_fold1 [where h = "AddShardCluster (Request.CollectionID r) (ReplicaID r)"])
     (simp_all add: prim_defs split: replicaRef.splits)

lemma streaming_fold_addShardCluster:
  "streaming (fold (addShardCluster c i) vs s) = streaming s"
  by (rule fold_frame) (simp add: prim_defs)

lemma historical_fold_addShardCluster:
  "historical (fold (addShardCluster c i) vs s) = historical s"
  by (rule fold_frame) (simp add: prim_defs)

lemma collections_watchDm_initMeta:
  "collections (streaming (watchDm_initMeta r vs n)) (Request.CollectionID r) \<noteq> None"
  "collections (historical (watchDm_initMeta r vs n)) (Request.CollectionID r) \<noteq> None"
  unfolding watchDm_initMeta_def
  by (simp_all add: streaming_fold_addShardCluster historical_fold_addShardCluster prim_defs)


subsection \<open>rangeOver\<close>

lemma set_rangeOver:
  assumes "distinct (map fst m)"
  shows "set (rangeOver ord m) = set m"
proof -
  have "\<And>k v. map_of m k = Some v \<longleftrightarrow> (k, v) \<in> set m"
    using assms by (simp add: map_of_eq_Some_iff)
  then have "\<And>k v. (Some v = map_of m k) \<longleftrightarrow> (k, v) \<in> set m"
    by (metis (full_types))
  then show ?thesis
    unfolding rangeOver_def by (auto split: option.splits)
qed

lemma map_fst_concat_lookup:
  "map fst (concat (map (\<lambda>k. case f k of None \<Rightarrow> [] | Some v \<Rightarrow> [(k, v)]) ks))
     = filter (\<lambda>k. f k \<noteq> None) ks"
  by (induction ks) (auto split: option.splits)

lemma distinct_rangeOver:
  assumes "distinct (map fst m)"
  shows "distinct (map fst (rangeOver ord m))"
  unfolding rangeOver_def
  using assms by (auto simp: map_fst_concat_lookup distinct_map_filter)

subsection \<open>quiet stages\<close>

lemma extendsI: "calls n' = calls n @ cs \<Longrightarrow> list_all P cs \<Longrightarrow> extends P n n'"
  by (auto simp: extends_iff)

lemma extends_addPartition: "extends quiet s (snd (addPartition ref cid pid s))"
  by (rule extendsI [where cs = "[AddPartition ref cid pid]"])
     (simp_all add: prim_defs quiet_def isStart_def attachFailed_def)

lemma extends_watchDm_updatePartitions: "extends quiet n (watchDm_updatePartitions cid lreq n)"
  unfolding watchDm_updatePartitions_def
  by (intro extends_trans [OF extends_fold extends_fold] extends_trans [OF extends_addPartition extends_addPartition])

lemma collections_addPartition:
  "collections (streaming (snd (addPartition ref cid pid s))) = collections (streaming s)"
  "collections (historical (snd (addPartition ref cid pid s))) = collections (historical s)"
  by (simp_all add: prim_defs split: replicaRef.splits)

lemma collections_watchDm_updatePartitions:
  "collections (streaming (watchDm_updatePartitions cid lreq n)) = collections (streaming n)"
  "collections (historical (watchDm_updatePartitions cid lreq n)) = collections (historical n)"
  unfolding watchDm_updatePartitions_def
  by (simp_all add: fold_frame [where f = "\<lambda>s. collections (streaming s)"]
      fold_frame [where f = "\<lambda>s. collections (historical s)"] collections_addPartition)

lemma extends_loadSegment: "extends quiet s (snd (loadSegment env lreq ty s))"
  by (rule extendsI [where cs = "[LoadSegment (map SegmentID (LoadSegmentsRequest.Infos lreq)) ty (loadSegmentResult env lreq ty)]"])
     (simp_all add: prim_defs quiet_def isStart_def attachFailed_def Let_def split: option.splits)

lemma collections_loadSegment:
  "collections (streaming (snd (loadSegment env lreq ty s))) = collections (streaming s)"
  "collections (historical (snd (loadSegment env lreq ty s))) = collections (historical s)"
  by (simp_all add: prim_defs Let_def split: replicaRef.splits option.splits segmentType.splits)

lemma extends_addExcludedSegments: "extends quiet s (addExcludedSegments ref cid infos s)"
  by (rule extendsI [where cs = "[AddExcludedSegments ref cid (map ID infos)]"])
     (simp_all add: prim_defs quiet_def isStart_def attachFailed_def split: replicaRef.splits)

lemma collections_addExcludedSegments:
  "collections (streaming (addExcludedSegments ref cid infos s)) = collections (streaming s)"
  "collections (historical (addExcludedSegments ref cid infos s)) = collections (historical s)"
  by (simp_all add: prim_defs split: replicaRef.splits)

lemma extends_addFlowGraphsForDMLChannels:
  "extends quiet s (snd (addFlowGraphsForDMLChannels env cid chs s))"
  by (rule extendsI [where cs = "[AddFlowGraphsForDMLChannels cid chs (addFlowGraphsForDMLChannelsResult env cid chs)]"])
     (simp_all add: prim_defs quiet_def isStart_def attachFailed_def Let_def split: option.splits)

lemma frame_addFlowGraphsForDMLChannels:
  "streaming (snd (addFlowGraphsForDMLChannels env cid chs s)) = streaming s"
  "historical (snd (addFlowGraphsForDMLChannels env cid chs s)) = historical s"
  by (simp_all add: prim_defs Let_def split: option.splits)

lemma addFlowGraphsForDMLChannels_Inr:
  "addFlowGraphsForDMLChannels env cid chs s = (Inr m, s') \<Longrightarrow>
     m = map (\<lambda>ch. (ch, \<lparr>fgCollectionID = cid, fgChannel = ch\<rparr>)) (remdups chs)"
  by (auto simp: prim_defs Let_def split: option.splits)

lemma quiet_simps [simp]:
  "quiet (ConsumeFlowGraph ch p sub res) = (res = None)"
  "quiet (SeekQueryNodeFlowGraph ch pos res) = (res = None)"
  "quiet (ConsumeFlowGraphFromLatest ch p sub res)"
  "quiet (FromDmlCPLoadDelete cid mp res)"
  "quiet (FlowGraphClose ch)"
  "\<not> quiet (FlowGraphStart ch)"
  "quiet (RemoveFlowGraphsByDMLChannels chs)"
  "quiet (RemoveFlowGraphsByDeltaChannels chs)"
  "quiet (RemoveSegment ref sid)"
  "quiet (AddVChannels ref cid chs)"
  "quiet (AddPChannels ref cid chs)"
  "quiet (AddVDeltaChannels ref cid chs)"
  "quiet (AddPDeltaChannels ref cid chs)"
  "quiet (SetLoadType ref cid l)"
  "quiet (AddTSafe ch)"
  "quiet (AddQueryShard cid ch rid)"
  "quiet (WatchDMLTSafe ch res)"
  "quiet (WatchDeltaTSafe ch res)"
  "quiet (AddFlowGraphsForDeltaChannels cid chs res)"
  by (simp_all add: quiet_def isStart_def attachFailed_def)

lemma isStart_simps [simp]:
  "\<not> isStart (ConsumeFlowGraph ch p sub res)"
  "\<not> isStart (SeekQueryNodeFlowGraph ch pos res)"
  "isStart (FlowGraphStart ch)"
  by (simp_all add: isStart_def)

lemma quiet_not_start: "quiet c \<Longrightarrow> \<not> isStart c"
  by (simp add: quiet_def)

subsection \<open>untilError\<close>

lemma untilError_frame:
  "(\<And>x s. g (snd (body x s)) = g s) \<Longrightarrow> g (snd (untilError body xs s)) = g s"
proof (induction xs arbitrary: s)
  case Nil
  then show ?case by simp
next
  case (Cons x xs)
  have "g (snd (body x s)) = g s" by (rule Cons.prems)
  moreover have "g (snd (untilError body xs (snd (body x s)))) = g (snd (body x s))"
    by (rule Cons.IH) (rule Cons.prems)
  ultimately show ?case
    by (cases "body x s") (auto split: option.splits)
qed

lemma untilError_extends:
  "(\<And>x s. extends P s (snd (body x s))) \<Longrightarrow> extends P s (snd (untilError body xs s))"
proof (induction xs arbitrary: s)
  case Nil
  then show ?case by (simp add: extends_refl)
next
  case (Cons x xs)
  have a: "extends P s (snd (body x s))" by (rule Cons.prems)
  have b: "extends P (snd (body x s)) (snd (untilError body xs (snd (body x s))))"
    by (rule Cons.IH) (rule Cons.prems)
  show ?case
    using a extends_trans [OF a b] by (cases "body x s") (auto split: option.splits)
qed

lemma untilError_extends_None:
  "(\<And>x s. fst (body x s) = None \<Longrightarrow> extends P s (snd (body x s))) \<Longrightarrow>
   fst (untilError body xs s) = None \<Longrightarrow> extends P s (snd (untilError body xs s))"
proof (induction xs arbitrary: s)
  case Nil
  then show ?case by (simp add: extends_refl)
next
  case (Cons x xs)
  obtain r s' where bx: "body x s = (r, s')" by (cases "body x s")
  with Cons.prems(2) have r: "r = None" and rest: "fst (untilError body xs s') = None"
    by (auto split: option.splits)
  have a: "extends P s s'" using Cons.prems(1) [of x s] bx r by simp
  have b: "extends P s' (snd (untilError body xs s'))"
    using Cons.IH [OF Cons.prems(1) rest] by simp
  show ?case using extends_trans [OF a b] bx r by simp
qed

lemma untilError_present:
  assumes ok: "fst (untilError body xs s) = None"
    and x: "x \<in> set xs"
    and mono: "\<And>y s. set (calls s) \<subseteq> set (calls (snd (body y s)))"
    and here: "\<And>s. fst (body x s) = None \<Longrightarrow> \<exists>c\<in>set (calls (snd (body x s))). R c"
  shows "\<exists>c\<in>set (calls (snd (untilError body xs s))). R c"
  using ok x
proof (induction xs arbitrary: s)
  case Nil
  then show ?case by simp
next
  case (Cons y ys)
  obtain r s' where by': "body y s = (r, s')" by (cases "body y s")
  with Cons.prems(1) have r: "r = None" and rest: "fst (untilError body ys s') = None"
    by (auto split: option.splits)
  have res: "untilError body (y # ys) s = untilError body ys s'"
    using by' r by simp
  have grow: "set (calls s') \<subseteq> set (calls (snd (untilError body ys s')))"
  proof -
    have "\<And>zs t. set (calls t) \<subseteq> set (calls (snd (untilError body zs t)))"
    proof -
      fix zs t show "set (calls t) \<subseteq> set (calls (snd (untilError body zs t)))"
      proof (induction zs arbitrary: t)
        case Nil then show ?case by simp
      next
        case (Cons z zs)
        show ?case using mono [of t z] Cons.IH [of "snd (body z t)"]
          by (cases "body z t") (auto split: option.splits)
      qed
    qed
    then show ?thesis .
  qed
  show ?case
  proof (cases "x = y")
    case True
    then have "\<exists>c\<in>set (calls s'). R c" using here [of s] by' r by simp
    then show ?thesis using grow res by auto
  next
    case False
    then have "x \<in> set ys" using Cons.prems(2) by simp
    from Cons.IH [OF rest this] show ?thesis using res by simp
  qed
qed

subsection \<open>attach\<close>

lemma fst_snd_prims [simp]:
  "snd (consumeFlowGraph env fg p sub n) =
     called (ConsumeFlowGraph (fgChannel fg) p sub (consumeFlowGraphResult env (fgChannel fg) p sub)) n"
  "fst (consumeFlowGraph env fg p sub n) = consumeFlowGraphResult env (fgChannel fg) p sub"
  "snd (seekQueryNodeFlowGraph env fg pos n) =
     called (SeekQueryNodeFlowGraph (fgChannel fg) pos (seekQueryNodeFlowGraphResult env (fgChannel fg) pos)) n"
  "fst (seekQueryNodeFlowGraph env fg pos n) = seekQueryNodeFlowGraphResult env (fgChannel fg) pos"
  by (simp_all add: consumeFlowGraph_def seekQueryNodeFlowGraph_def Let_def)

lemma watchDm_attachOne_cases:
  "watchDm_attachOne env VP sub cons seek (channel, fg) n =
     (if map_of cons channel \<noteq> None
      then (case consumeFlowGraphResult env (fgChannel fg) (goLookupString VP channel) sub of
              Some e \<Rightarrow> (Some e, called (ConsumeFlowGraph (fgChannel fg) (goLookupString VP channel) sub (Some e)) n)
            | None \<Rightarrow>
               (case map_of seek channel of
                  None \<Rightarrow> (None, called (ConsumeFlowGraph (fgChannel fg) (goLookupString VP channel) sub None) n)
                | Some pos \<Rightarrow>
                    (seekQueryNodeFlowGraphResult env (fgChannel fg)
                       (pos\<lparr>MsgPosition.ChannelName := goLookupString VP channel, MsgGroup := sub\<rparr>),
                     called (SeekQueryNodeFlowGraph (fgChannel fg)
                              (pos\<lparr>MsgPosition.ChannelName := goLookupString VP channel, MsgGroup := sub\<rparr>)
                              (seekQueryNodeFlowGraphResult env (fgChannel fg)
                                (pos\<lparr>MsgPosition.ChannelName := goLookupString VP channel, MsgGroup := sub\<rparr>)))
                       (called (ConsumeFlowGraph (fgChannel fg) (goLookupString VP channel) sub None) n))))
      else (case map_of seek channel of
              None \<Rightarrow> (None, n)
            | Some pos \<Rightarrow>
                (seekQueryNodeFlowGraphResult env (fgChannel fg)
                   (pos\<lparr>MsgPosition.ChannelName := goLookupString VP channel, MsgGroup := sub\<rparr>),
                 called (SeekQueryNodeFlowGraph (fgChannel fg)
                          (pos\<lparr>MsgPosition.ChannelName := goLookupString VP channel, MsgGroup := sub\<rparr>)
                          (seekQueryNodeFlowGraphResult env (fgChannel fg)
                            (pos\<lparr>MsgPosition.ChannelName := goLookupString VP channel, MsgGroup := sub\<rparr>)))
                   n)))"
  by (simp add: watchDm_attachOne_def consumeFlowGraph_def seekQueryNodeFlowGraph_def Let_def
      split: option.splits)

lemma frame_watchDm_attachOne:
  "streaming (snd (watchDm_attachOne env VP sub cons seek x n)) = streaming n"
  "historical (snd (watchDm_attachOne env VP sub cons seek x n)) = historical n"
  "dmlChannel2FlowGraph (snd (watchDm_attachOne env VP sub cons seek x n)) = dmlChannel2FlowGraph n"
  by (cases x; simp add: watchDm_attachOne_cases split: option.splits)+

lemma extends_watchDm_attachOne:
  "extends (\<lambda>c. \<not> isStart c) n (snd (watchDm_attachOne env VP sub cons seek x n))"
  by (cases x) (simp add: watchDm_attachOne_cases extends_def split: option.splits)

lemma extends_watchDm_attachOne_quiet:
  "fst (watchDm_attachOne env VP sub cons seek x n) = None \<Longrightarrow>
   extends quiet n (snd (watchDm_attachOne env VP sub cons seek x n))"
  by (cases x) (simp add: watchDm_attachOne_cases extends_def split: option.splits if_splits)

lemma attachedOK_watchDm_attachOne:
  "fst (watchDm_attachOne env VP sub cons seek (channel, fg) n) = None \<Longrightarrow>
   map_of cons channel \<noteq> None \<or> map_of seek channel \<noteq> None \<Longrightarrow>
   \<exists>c\<in>set (calls (snd (watchDm_attachOne env VP sub cons seek (channel, fg) n))). attachedOK (fgChannel fg) c"
  by (auto simp: watchDm_attachOne_cases attachedOK_def split: option.splits if_splits)

lemma frame_watchDm_attach:
  "streaming (snd (watchDm_attach env VP sub cons seek xs n)) = streaming n"
  "historical (snd (watchDm_attach env VP sub cons seek xs n)) = historical n"
  "dmlChannel2FlowGraph (snd (watchDm_attach env VP sub cons seek xs n)) = dmlChannel2FlowGraph n"
  unfolding watchDm_attach_def
  by (rule untilError_frame, rule frame_watchDm_attachOne)+

lemma extends_watchDm_attach:
  "extends (\<lambda>c. \<not> isStart c) n (snd (watchDm_attach env VP sub cons seek xs n))"
  unfolding watchDm_attach_def by (rule untilError_extends) (rule extends_watchDm_attachOne)

lemma extends_watchDm_attach_quiet:
  "fst (watchDm_attach env VP sub cons seek xs n) = None \<Longrightarrow>
   extends quiet n (snd (watchDm_attach env VP sub cons seek xs n))"
  unfolding watchDm_attach_def
  by (rule untilError_extends_None) (rule extends_watchDm_attachOne_quiet)

lemma attachedOK_watchDm_attach:
  assumes "fst (watchDm_attach env VP sub cons seek xs n) = None"
    and "(channel, fg) \<in> set xs"
    and "map_of cons channel \<noteq> None \<or> map_of seek channel \<noteq> None"
  shows "\<exists>c\<in>set (calls (snd (watchDm_attach env VP sub cons seek xs n))). attachedOK (fgChannel fg) c"
  using assms(1) unfolding watchDm_attach_def
  by (rule untilError_present [OF _ assms(2)])
     (auto intro: extends_subset [OF extends_watchDm_attachOne, THEN subsetD]
           attachedOK_watchDm_attachOne [OF _ assms(3)])

subsection \<open>rollback and the deferred removal\<close>

lemma fold_delete:
  "fold (\<lambda>k m. m(k := None)) ks m x = (if x \<in> set ks then None else m x)"
  by (induction ks arbitrary: m) auto

lemma calls_fold_Close:
  "calls (fold (\<lambda>(channel, fg). flowGraph_Close fg) xs n)
     = calls n @ map (\<lambda>(channel, fg). FlowGraphClose (fgChannel fg)) xs"
  by (rule calls_fold1) (auto simp: flowGraph_Close_def)

lemma frame_fold_Close:
  "streaming (fold (\<lambda>(channel, fg). flowGraph_Close fg) xs n) = streaming n"
  "historical (fold (\<lambda>(channel, fg). flowGraph_Close fg) xs n) = historical n"
  "dmlChannel2FlowGraph (fold (\<lambda>(channel, fg). flowGraph_Close fg) xs n) = dmlChannel2FlowGraph n"
  "deltaChannel2FlowGraph (fold (\<lambda>(channel, fg). flowGraph_Close fg) xs n) = deltaChannel2FlowGraph n"
  by (rule fold_frame; auto simp: flowGraph_Close_def)+

lemma calls_watchDm_rollback:
  "calls (watchDm_rollback env m n) =
     calls n @ map (\<lambda>(channel, fg). FlowGraphClose (fgChannel fg)) (rangeOver (rangeSeed env 1) m)
     @ [RemoveFlowGraphsByDMLChannels (map fst (rangeOver (rangeSeed env 2) m))]"
  by (simp add: watchDm_rollback_def removeFlowGraphsByDMLChannels_def calls_fold_Close)

lemma frame_watchDm_rollback:
  "streaming (watchDm_rollback env m n) = streaming n"
  "historical (watchDm_rollback env m n) = historical n"
  by (simp_all add: watchDm_rollback_def removeFlowGraphsByDMLChannels_def frame_fold_Close)

lemma dml_watchDm_rollback:
  "dmlChannel2FlowGraph (watchDm_rollback env m n) ch =
     (if ch \<in> fst ` set (rangeOver (rangeSeed env 2) m) then None else dmlChannel2FlowGraph n ch)"
  by (simp add: watchDm_rollback_def removeFlowGraphsByDMLChannels_def frame_fold_Close fold_delete)

lemma streaming_watchDm_removeGrowing:
  "streaming (watchDm_removeGrowing ids n) =
     (streaming n)\<lparr>segments := fold (\<lambda>sid m. m(sid := None)) ids (segments (streaming n))\<rparr>"
  unfolding watchDm_removeGrowing_def
  by (induction ids arbitrary: n) (simp_all add: removeSegment_def)

lemma frame_watchDm_removeGrowing:
  "historical (watchDm_removeGrowing ids n) = historical n"
  "dmlChannel2FlowGraph (watchDm_removeGrowing ids n) = dmlChannel2FlowGraph n"
  unfolding watchDm_removeGrowing_def
  by (rule fold_frame; simp add: removeSegment_def)+

lemma calls_watchDm_removeGrowing:
  "calls (watchDm_removeGrowing ids n) = calls n @ map (RemoveSegment streamingReplica) ids"
  unfolding watchDm_removeGrowing_def
  by (rule calls_fold1) (simp add: removeSegment_def)

subsection \<open>groupChannels\<close>

lemma groupStep_keys':
  "fst ` set (fst (groupStep sub info (seek0, cons0))) \<union> fst ` set (snd (groupStep sub info (seek0, cons0)))
     = insert (VchannelInfo.ChannelName info) (fst ` set seek0 \<union> fst ` set cons0)"
  by (simp add: groupStep_def dom_update split: option.splits)

lemma groupStep_keys:
  "groupStep sub info (seek0, cons0) = (seek1, cons1) \<Longrightarrow>
   fst ` set seek1 \<union> fst ` set cons1
     = insert (VchannelInfo.ChannelName info) (fst ` set seek0 \<union> fst ` set cons0)"
  using groupStep_keys' [of sub info seek0 cons0] by simp

lemma groupChannels_keys_aux:
  "fold (groupStep sub) infos (seek0, cons0) = (seek, cons) \<Longrightarrow>
   fst ` set seek \<union> fst ` set cons
     = fst ` set seek0 \<union> fst ` set cons0 \<union> VchannelInfo.ChannelName ` set infos"
proof (induction infos arbitrary: seek0 cons0)
  case Nil
  then show ?case by simp
next
  case (Cons info infos)
  obtain seek1 cons1 where st: "groupStep sub info (seek0, cons0) = (seek1, cons1)"
    by (cases "groupStep sub info (seek0, cons0)")
  have "fst ` set seek \<union> fst ` set cons
          = fst ` set seek1 \<union> fst ` set cons1 \<union> VchannelInfo.ChannelName ` set infos"
    using Cons.prems st by (intro Cons.IH) simp
  then show ?case
    unfolding groupStep_keys [OF st] by simp
qed

lemma groupChannels_keys:
  assumes "groupChannels sub infos = (seek, cons)" and "info \<in> set infos"
  shows "map_of cons (VchannelInfo.ChannelName info) \<noteq> None
         \<or> map_of seek (VchannelInfo.ChannelName info) \<noteq> None"
proof -
  have "fst ` set seek \<union> fst ` set cons = VchannelInfo.ChannelName ` set infos"
    using groupChannels_keys_aux [of sub infos "[]" "[]" seek cons] assms(1)
    by (simp add: groupChannels_def)
  then have "VchannelInfo.ChannelName info \<in> fst ` set seek \<union> fst ` set cons"
    using assms(2) by blast
  then show ?thesis
    by (auto simp: map_of_eq_None_iff)
qed

subsection \<open>register and finish\<close>

lemma extends_fold_addTSafe: "extends quiet n (fold addTSafe vs n)"
  by (rule extends_fold) (simp add: addTSafe_def extends_def)

lemma calls_fold_addTSafe: "calls (fold addTSafe vs n) = calls n @ map AddTSafe vs"
  by (rule calls_fold1) (simp add: addTSafe_def)

lemma extends_watchDm_queryShard: "extends quiet n (watchDm_queryShard env cid rid ch n)"
  by (simp add: watchDm_queryShard_def hasQueryShard_def getQueryShard_def addQueryShard_def
      watchDMLTSafe_def Let_def extends_def split: option.splits)

lemma extends_fold_watchDm_queryShard:
  "extends quiet n (fold (watchDm_queryShard env cid rid) vs n)"
  by (rule extends_fold) (rule extends_watchDm_queryShard)

lemma watchDm_register_calls:
  "\<exists>cs. calls (watchDm_register env r lType vs ps n)
          = calls n @ watchDm_metadataCalls (Request.CollectionID r) lType vs ps @ map AddTSafe vs @ cs
        \<and> list_all quiet cs"
proof -
  let ?cid = "Request.CollectionID r"
  let ?n2 = "setLoadType historicalReplica ?cid lType
                 (addPChannels historicalReplica ?cid ps
                   (addVChannels historicalReplica ?cid vs
                     (setLoadType streamingReplica ?cid lType
                       (addPChannels streamingReplica ?cid ps
                         (addVChannels streamingReplica ?cid vs n)))))"
  let ?n3 = "fold addTSafe vs ?n2"
  have c3: "calls ?n3 = calls n @ watchDm_metadataCalls ?cid lType vs ps @ map AddTSafe vs"
    by (simp add: calls_fold_addTSafe watchDm_metadataCalls_def prim_defs)
  have "extends quiet ?n3 (fold (watchDm_queryShard env ?cid (ReplicaID r)) vs ?n3)"
    by (rule extends_fold_watchDm_queryShard)
  then obtain cs where "calls (fold (watchDm_queryShard env ?cid (ReplicaID r)) vs ?n3) = calls ?n3 @ cs"
    and "list_all quiet cs"
    by (auto simp: extends_iff)
  then show ?thesis
    unfolding watchDm_register_def Let_def c3 by simp
qed

lemma calls_fold_Start:
  "calls (fold (\<lambda>(channel, fg). flowGraph_Start fg) xs n)
     = calls n @ map (\<lambda>(channel, fg). FlowGraphStart (fgChannel fg)) xs"
  by (rule calls_fold1) (auto simp: flowGraph_Start_def)

lemma created_entries:
  assumes "m = map (\<lambda>ch. (ch, \<lparr>fgCollectionID = cid, fgChannel = ch\<rparr>)) (remdups chs)"
  shows "distinct (map fst m)" and "fst ` set m = set chs"
    and "map (\<lambda>(channel, fg). f (fgChannel fg)) (rangeOver ord m) = map f (map fst (rangeOver ord m))"
    and "set (map fst (rangeOver ord m)) = set chs"
    and "distinct (map fst (rangeOver ord m))"
proof -
  show d: "distinct (map fst m)" using assms by (simp add: comp_def)
  show s: "fst ` set m = set chs" using assms by (auto simp: image_iff)
  have "\<And>channel fg. (channel, fg) \<in> set m \<Longrightarrow> fgChannel fg = channel"
    using assms by auto
  then have "\<And>channel fg. (channel, fg) \<in> set (rangeOver ord m) \<Longrightarrow> fgChannel fg = channel"
    by (simp add: set_rangeOver [OF d])
  then show "map (\<lambda>(channel, fg). f (fgChannel fg)) (rangeOver ord m) = map f (map fst (rangeOver ord m))"
    by auto
  show "set (map fst (rangeOver ord m)) = set chs"
    using s by (simp add: set_rangeOver [OF d])
  show "distinct (map fst (rangeOver ord m))"
    by (rule distinct_rangeOver [OF d])
qed

lemma fold_present:
  "x \<in> set xs \<Longrightarrow> (\<And>s. c \<in> set (calls (g x s))) \<Longrightarrow>
   (\<And>y s. set (calls s) \<subseteq> set (calls (g y s))) \<Longrightarrow> c \<in> set (calls (fold g xs s))"
proof (induction xs arbitrary: s)
  case Nil
  then show ?case by simp
next
  case (Cons y ys)
  have grow: "\<And>zs t. set (calls t) \<subseteq> set (calls (fold g zs t))"
  proof -
    fix zs t show "set (calls t) \<subseteq> set (calls (fold g zs t))"
    proof (induction zs arbitrary: t)
      case Nil then show ?case by simp
    next
      case (Cons z zs)
      show ?case using Cons.prems Cons.IH [of "g z t"] \<open>\<And>y s. set (calls s) \<subseteq> set (calls (g y s))\<close> [of t z]
        by auto
    qed
  qed
  show ?case
  proof (cases "x = y")
    case True
    then have "c \<in> set (calls (g y s))" using Cons.prems(2) by simp
    then show ?thesis using grow [of "g y s" ys] by auto
  next
    case False
    then have "x \<in> set ys" using Cons.prems(1) by simp
    then show ?thesis using Cons.IH [OF _ Cons.prems(2) Cons.prems(3)] by simp
  qed
qed

lemma watchDm_queryShard_watches:
  "addQueryShardResult env cid ch rid = None \<Longrightarrow>
   WatchDMLTSafe ch (watchDMLTSafeResult env ch) \<in> set (calls (watchDm_queryShard env cid rid ch s))"
  by (simp add: watchDm_queryShard_def hasQueryShard_def getQueryShard_def addQueryShard_def
      watchDMLTSafe_def Let_def split: option.splits)

lemma watchDm_register_shards:
  assumes "ch \<in> set vs" and "addQueryShardResult env (Request.CollectionID r) ch (ReplicaID r) = None"
  shows "WatchDMLTSafe ch (watchDMLTSafeResult env ch) \<in> set (calls (watchDm_register env r lType vs ps n))"
  unfolding watchDm_register_def Let_def
  by (rule fold_present [OF assms(1)])
     (simp_all add: watchDm_queryShard_watches [OF assms(2)] extends_subset [OF extends_watchDm_queryShard])

lemma list_all_quiet_called: "list_all quiet (calls n) \<Longrightarrow> quiet c \<Longrightarrow> list_all quiet (calls (called c n))"
  by simp

lemma watchDm_afterLoad_cases:
  assumes q: "list_all quiet (calls n)"
  shows
   "(\<exists>p n'. watchDm_afterLoad env r lType infos ufs ids n = Panic p n' \<and> list_all quiet (calls n'))
    \<or> (\<exists>e n'. watchDm_afterLoad env r lType infos ufs ids n = Return (Some e) n'
          \<and> list_all quiet (calls n'))
    \<or> (\<exists>e n'. watchDm_afterLoad env r lType infos ufs ids n = Return (Some e) n'
          \<and> list_all (\<lambda>c. \<not> isStart c) (calls n')
          \<and> (\<forall>ch\<in>set (map VchannelInfo.ChannelName infos).
                dmlChannel2FlowGraph n' ch = None \<and> FlowGraphClose ch \<in> set (calls n'))
          \<and> (\<forall>sid\<in>set ids. segments (streaming n') sid = None)
          \<and> collections (streaming n') = collections (streaming n)
          \<and> collections (historical n') = collections (historical n)
          \<and> set (calls n) \<subseteq> set (calls n')
          \<and> AddFlowGraphsForDMLChannels (Request.CollectionID r)
                (map VchannelInfo.ChannelName infos) None \<in> set (calls n'))
    \<or> (\<exists>n' pre chans. watchDm_afterLoad env r lType infos ufs ids n = Return None n'
          \<and> calls n' = pre @ map FlowGraphStart chans
          \<and> list_all quiet pre
          \<and> set chans = set (map VchannelInfo.ChannelName infos) \<and> distinct chans
          \<and> (\<forall>ch\<in>set (map VchannelInfo.ChannelName infos). \<exists>c\<in>set pre. attachedOK ch c)
          \<and> set (calls n) \<subseteq> set pre
          \<and> set (watchDm_metadataCalls (Request.CollectionID r) lType
                    (map VchannelInfo.ChannelName infos)
                    (map (\<lambda>info. ToPhysicalChannel env (VchannelInfo.ChannelName info)) infos)) \<subseteq> set pre
          \<and> AddTSafe ` set (map VchannelInfo.ChannelName infos) \<subseteq> set pre
          \<and> (\<forall>ch\<in>set (map VchannelInfo.ChannelName infos).
                addQueryShardResult env (Request.CollectionID r) ch (ReplicaID r) = None \<longrightarrow>
                WatchDMLTSafe ch (watchDMLTSafeResult env ch) \<in> set pre))"
  (is "?A \<or> ?B \<or> ?C \<or> ?D")
proof -
  let ?cid = "Request.CollectionID r"
  let ?vs = "map VchannelInfo.ChannelName infos"
  let ?ps = "map (\<lambda>info. ToPhysicalChannel env (VchannelInfo.ChannelName info)) infos"
  let ?sub = "GenChannelSubName env (QueryNodeSubName env) ?cid (GetNodeID env)"
  obtain VP where pc: "physicalChannels env infos = (?vs, ?ps, VP)"
    by (simp add: physicalChannels_def)
  obtain seek cons where g: "groupChannels ?sub infos = (seek, cons)"
    by (cases "groupChannels ?sub infos")
  let ?n1 = "addExcludedSegments streamingReplica ?cid ufs n"
  have q1: "list_all quiet (calls ?n1)"
    by (rule extends_all [OF extends_addExcludedSegments q])
  show ?thesis
  proof (cases "flushedCheckPoints (map snd seek) (concat (map FlushedSegments infos))")
    case (Inl p)
    then have "watchDm_afterLoad env r lType infos ufs ids n = Panic p ?n1"
      by (simp add: watchDm_afterLoad_def Let_def pc g)
    then have ?A using q1 by blast
    then show ?thesis by blast
  next
    case flushed: (Inr flushedInfos)
    let ?n2 = "addExcludedSegments streamingReplica ?cid flushedInfos ?n1"
    have q2: "list_all quiet (calls ?n2)"
      by (rule extends_all [OF extends_addExcludedSegments q1])
    show ?thesis
    proof (cases "droppedCheckPoints (map snd seek) (concat (map DroppedSegments infos))")
      case (Inl p)
      then have "watchDm_afterLoad env r lType infos ufs ids n = Panic p ?n2"
        by (simp add: watchDm_afterLoad_def Let_def pc g flushed)
      then have ?A using q2 by blast
      then show ?thesis by blast
    next
      case dropped: (Inr droppedInfos)
      let ?n3 = "addExcludedSegments streamingReplica ?cid droppedInfos ?n2"
      have q3: "list_all quiet (calls ?n3)"
        by (rule extends_all [OF extends_addExcludedSegments q2])
      have sub3: "set (calls n) \<subseteq> set (calls ?n3)"
        by (simp add: addExcludedSegments_def) blast
      have col3: "collections (streaming ?n3) = collections (streaming n)"
                 "collections (historical ?n3) = collections (historical n)"
        by (simp_all add: collections_addExcludedSegments)
      obtain res n4 where a: "addFlowGraphsForDMLChannels env ?cid ?vs ?n3 = (res, n4)"
        by (cases "addFlowGraphsForDMLChannels env ?cid ?vs ?n3")
      have n4: "n4 = snd (addFlowGraphsForDMLChannels env ?cid ?vs ?n3)" using a by simp
      have q4: "list_all quiet (calls n4)"
        unfolding n4 by (rule extends_all [OF extends_addFlowGraphsForDMLChannels q3])
      have sub4: "set (calls n) \<subseteq> set (calls n4)"
        using sub3 extends_subset [OF extends_addFlowGraphsForDMLChannels, of ?n3 env ?cid ?vs]
        unfolding n4 by blast
      have col4: "collections (streaming n4) = collections (streaming n)"
                 "collections (historical n4) = collections (historical n)"
        unfolding n4 by (simp_all add: frame_addFlowGraphsForDMLChannels col3)
      show ?thesis
      proof (cases res)
        case (Inl e)
        then have out: "watchDm_afterLoad env r lType infos ufs ids n
                          = Return (Some e) (watchDm_removeGrowing ids n4)"
          by (simp add: watchDm_afterLoad_def Let_def pc g flushed dropped a)
        have "list_all quiet (calls (watchDm_removeGrowing ids n4))"
          using q4 by (auto simp: calls_watchDm_removeGrowing list_all_iff)
        then have ?B using out by blast
        then show ?thesis by blast
      next
        case created: (Inr c2fg)
        have c2fg: "c2fg = map (\<lambda>ch. (ch, \<lparr>fgCollectionID = ?cid, fgChannel = ch\<rparr>)) (remdups ?vs)"
          using a created by (auto dest: addFlowGraphsForDMLChannels_Inr)
        have added: "AddFlowGraphsForDMLChannels ?cid ?vs None \<in> set (calls n4)"
          using a created by (auto simp: addFlowGraphsForDMLChannels_def Let_def split: option.splits)
        obtain r5 n5 where att: "watchDm_attach env VP ?sub cons seek (rangeOver (rangeSeed env 0) c2fg) n4 = (r5, n5)"
          by (cases "watchDm_attach env VP ?sub cons seek (rangeOver (rangeSeed env 0) c2fg) n4")
        have n5: "n5 = snd (watchDm_attach env VP ?sub cons seek (rangeOver (rangeSeed env 0) c2fg) n4)"
          and r5: "r5 = fst (watchDm_attach env VP ?sub cons seek (rangeOver (rangeSeed env 0) c2fg) n4)"
          using att by simp_all
        have ns4: "list_all (\<lambda>c. \<not> isStart c) (calls n4)"
          using q4 by (simp add: list_all_iff quiet_def)
        have ns5: "list_all (\<lambda>c. \<not> isStart c) (calls n5)"
          unfolding n5 by (rule extends_all [OF extends_watchDm_attach ns4])
        have sub5: "set (calls n4) \<subseteq> set (calls n5)"
          unfolding n5 by (rule extends_subset [OF extends_watchDm_attach])
        have fr5: "streaming n5 = streaming n4" "historical n5 = historical n4"
                  "dmlChannel2FlowGraph n5 = dmlChannel2FlowGraph n4"
          unfolding n5 by (simp_all add: frame_watchDm_attach)
        show ?thesis
        proof (cases r5)
          case (Some e)
          let ?n' = "watchDm_removeGrowing ids (watchDm_rollback env c2fg n5)"
          have out: "watchDm_afterLoad env r lType infos ufs ids n = Return (Some e) ?n'"
            using Some by (simp add: watchDm_afterLoad_def Let_def pc g flushed dropped a created att)
          have calls': "calls ?n' = calls n5
                  @ map FlowGraphClose (map fst (rangeOver (rangeSeed env 1) c2fg))
                  @ [RemoveFlowGraphsByDMLChannels (map fst (rangeOver (rangeSeed env 2) c2fg))]
                  @ map (RemoveSegment streamingReplica) ids"
            by (simp add: calls_watchDm_removeGrowing calls_watchDm_rollback created_entries(3) [OF c2fg])
          have 1: "list_all (\<lambda>c. \<not> isStart c) (calls ?n')"
            using ns5 unfolding calls' by (auto simp: list_all_iff isStart_def)
          have key1: "set (map fst (rangeOver (rangeSeed env 1) c2fg)) = set ?vs"
            and key2: "set (map fst (rangeOver (rangeSeed env 2) c2fg)) = set ?vs"
            by (rule created_entries(4) [OF c2fg])+
          have 2: "\<forall>ch\<in>set ?vs. dmlChannel2FlowGraph ?n' ch = None \<and> FlowGraphClose ch \<in> set (calls ?n')"
          proof (intro ballI conjI)
            fix ch assume ch: "ch \<in> set ?vs"
            then have "ch \<in> fst ` set (rangeOver (rangeSeed env 2) c2fg)"
              using key2 by simp
            then show "dmlChannel2FlowGraph ?n' ch = None"
              by (simp only: frame_watchDm_removeGrowing dml_watchDm_rollback if_True)
            have "FlowGraphClose ch \<in> FlowGraphClose ` set (map fst (rangeOver (rangeSeed env 1) c2fg))"
              using ch unfolding key1 by (rule imageI)
            then show "FlowGraphClose ch \<in> set (calls ?n')"
              unfolding calls' by (simp only: set_append set_map Un_iff) blast
          qed
          have 3: "\<forall>sid\<in>set ids. segments (streaming ?n') sid = None"
            by (simp add: streaming_watchDm_removeGrowing fold_delete)
          have 4: "collections (streaming ?n') = collections (streaming n)"
                  "collections (historical ?n') = collections (historical n)"
            by (simp_all add: streaming_watchDm_removeGrowing frame_watchDm_removeGrowing
                frame_watchDm_rollback fr5 col4)
          have 5: "set (calls n) \<subseteq> set (calls ?n')"
            using sub4 sub5 unfolding calls' by auto
          have 6: "AddFlowGraphsForDMLChannels ?cid ?vs None \<in> set (calls ?n')"
            using added sub5 unfolding calls' by auto
          have ?C using out 1 2 3 4 5 6 by blast
          then show ?thesis by blast
        next
          case None
          let ?n' = "watchDm_finish env r lType ?vs ?ps c2fg n5"
          have out: "watchDm_afterLoad env r lType infos ufs ids n = Return None ?n'"
            using None by (simp add: watchDm_afterLoad_def Let_def pc g flushed dropped a created att)
          have q5: "list_all quiet (calls n5)"
            unfolding n5 using None r5
            by (intro extends_all [OF extends_watchDm_attach_quiet q4]) simp
          obtain cs where reg: "calls (watchDm_register env r lType ?vs ?ps n5)
                 = calls n5 @ watchDm_metadataCalls ?cid lType ?vs ?ps @ map AddTSafe ?vs @ cs"
              and qcs: "list_all quiet cs"
            using watchDm_register_calls [of env r lType ?vs ?ps n5] by blast
          let ?pre = "calls (watchDm_register env r lType ?vs ?ps n5)"
          let ?chans = "map fst (rangeOver (rangeSeed env 3) c2fg)"
          have calls': "calls ?n' = ?pre @ map FlowGraphStart ?chans"
            by (simp add: watchDm_finish_def calls_fold_Start created_entries(3) [OF c2fg])
          have 1: "list_all quiet ?pre"
            unfolding reg using q5 qcs by (auto simp: watchDm_metadataCalls_def list_all_iff)
          have 2: "set ?chans = set ?vs" "distinct ?chans"
            using created_entries(4,5) [OF c2fg] by simp_all
          have 3: "\<forall>ch\<in>set ?vs. \<exists>c\<in>set ?pre. attachedOK ch c"
          proof
            fix ch assume ch: "ch \<in> set ?vs"
            then obtain info where info: "info \<in> set infos" "ch = VchannelInfo.ChannelName info"
              by auto
            have key: "map_of cons ch \<noteq> None \<or> map_of seek ch \<noteq> None"
              using groupChannels_keys [OF g info(1)] info(2) by simp
            have "(ch, \<lparr>fgCollectionID = ?cid, fgChannel = ch\<rparr>) \<in> set c2fg"
              using ch c2fg by auto
            then have mem: "(ch, \<lparr>fgCollectionID = ?cid, fgChannel = ch\<rparr>) \<in> set (rangeOver (rangeSeed env 0) c2fg)"
              by (simp add: set_rangeOver [OF created_entries(1) [OF c2fg]])
            have "\<exists>c\<in>set (calls n5). attachedOK (fgChannel \<lparr>fgCollectionID = ?cid, fgChannel = ch\<rparr>) c"
              unfolding n5 using None r5
              by (intro attachedOK_watchDm_attach [OF _ mem key]) simp
            then show "\<exists>c\<in>set ?pre. attachedOK ch c"
              unfolding reg by auto
          qed
          have 4: "set (calls n) \<subseteq> set ?pre"
            using sub4 sub5 unfolding reg by auto
          have 5: "set (watchDm_metadataCalls ?cid lType ?vs ?ps) \<subseteq> set ?pre"
            unfolding reg by auto
          have 6: "AddTSafe ` set ?vs \<subseteq> set ?pre"
            unfolding reg by auto
          have 7: "\<forall>ch\<in>set ?vs. addQueryShardResult env ?cid ch (ReplicaID r) = None \<longrightarrow>
                     WatchDMLTSafe ch (watchDMLTSafeResult env ch) \<in> set ?pre"
            using watchDm_register_shards [of _ ?vs env r lType ?ps n5] by blast
          have ?D
            using out calls' 1 2 3 4 5 6 7 by blast
          then show ?thesis by blast
        qed
      qed
    qed
  qed
qed

lemma calls_reset [simp]: "calls (node\<lparr>calls := []\<rparr>) = []"
  by simp

lemma extends_watchDm_initMeta: "extends quiet n (watchDm_initMeta r vs n)"
  by (rule extendsI [OF calls_watchDm_initMeta])
     (auto simp: quiet_def isStart_def attachFailed_def list_all_iff)

lemma watchDm_Execute_cases:
  "(\<exists>p n'. watchDmChannelsTask_Execute env w node = Panic p n' \<and> list_all quiet (calls n'))
   \<or> (\<exists>e n'. watchDmChannelsTask_Execute env w node = Return (Some e) n' \<and> list_all quiet (calls n'))
   \<or> (\<exists>r infos ufs n3. req w = Some r
         \<and> those (WatchDmChannelsRequest.Infos r) = Some infos
         \<and> those (concat (map UnflushedSegments infos)) = Some ufs
         \<and> Base r \<noteq> None
         \<and> list_all quiet (calls n3)
         \<and> collections (streaming n3) (Request.CollectionID r) \<noteq> None
         \<and> collections (historical n3) (Request.CollectionID r) \<noteq> None
         \<and> LoadSegment (map ID (filter (\<lambda>ufInfo. length (Binlogs ufInfo) > 0) ufs))
               segmentTypeGrowing None \<in> set (calls n3)
         \<and> watchDmChannelsTask_Execute env w node
             = watchDm_afterLoad env r (determineLoadType r) infos ufs
                 (map ID (filter (\<lambda>ufInfo. length (Binlogs ufInfo) > 0) ufs)) n3)"
  (is "?A \<or> ?B \<or> ?C")
proof -
  let ?n0 = "node\<lparr>calls := []\<rparr>"
  have q0: "list_all quiet (calls ?n0)" by simp
  show ?thesis
  proof (cases "req w")
    case None
    then have "watchDmChannelsTask_Execute env w node = Panic NilPointerDereference ?n0"
      by (simp add: watchDmChannelsTask_Execute_def)
    then have ?A using q0 by blast
    then show ?thesis by blast
  next
    case r: (Some r)
    let ?cid = "Request.CollectionID r"
    show ?thesis
    proof (cases "those (WatchDmChannelsRequest.Infos r)")
      case None
      then have "watchDmChannelsTask_Execute env w node = Panic NilPointerDereference ?n0"
        by (simp add: watchDmChannelsTask_Execute_def r)
      then have ?A using q0 by blast
      then show ?thesis by blast
    next
      case infos: (Some infos)
      let ?vs = "map VchannelInfo.ChannelName infos"
      obtain ps VP where pc: "physicalChannels env infos = (?vs, ps, VP)"
        by (simp add: physicalChannels_def)
      show ?thesis
      proof (cases "length VP \<noteq> length ?vs")
        case True
        then have "watchDmChannelsTask_Execute env w node = Return (Some (IllegalChannelLength ?cid)) ?n0"
          by (simp add: watchDmChannelsTask_Execute_def r infos pc)
        then have ?B using q0 by blast
        then show ?thesis by blast
      next
        case len: False
        show ?thesis
        proof (cases "WatchDmChannelsRequest.Schema r")
          case None
          then have "watchDmChannelsTask_Execute env w node = Panic NilPointerDereference ?n0"
            using len by (simp add: watchDmChannelsTask_Execute_def r infos pc)
          then have ?A using q0 by blast
          then show ?thesis by blast
        next
          case sch: (Some sch)
          let ?n1 = "watchDm_initMeta r ?vs ?n0"
          have q1: "list_all quiet (calls ?n1)"
            by (rule extends_all [OF extends_watchDm_initMeta q0])
          show ?thesis
          proof (cases "those (concat (map UnflushedSegments infos))")
            case None
            then have "watchDmChannelsTask_Execute env w node = Panic NilPointerDereference ?n1"
              using len by (simp add: watchDmChannelsTask_Execute_def r infos pc sch Let_def)
            then have ?A using q1 by blast
            then show ?thesis by blast
          next
            case ufs: (Some ufs)
            let ?loaded = "filter (\<lambda>ufInfo. length (Binlogs ufInfo) > 0) ufs"
            show ?thesis
            proof (cases "Base r")
              case None
              then have "watchDmChannelsTask_Execute env w node = Panic NilPointerDereference ?n1"
                using len by (simp add: watchDmChannelsTask_Execute_def r infos pc sch ufs Let_def)
              then have ?A using q1 by blast
              then show ?thesis by blast
            next
              case base: (Some base)
              let ?lreq = "\<lparr>Base = Some \<lparr>MsgType = MsgType_LoadSegments,
                                          MsgBase.MsgID = MsgBase.MsgID base,
                                          MsgBase.Timestamp = 0\<rparr>,
                            CollectionID = ?cid,
                            Infos = map toLoadInfo ?loaded,
                            Schema = WatchDmChannelsRequest.Schema r,
                            LoadMeta = WatchDmChannelsRequest.LoadMeta r\<rparr>"
              let ?n2 = "watchDm_updatePartitions ?cid ?lreq ?n1"
              have q2: "list_all quiet (calls ?n2)"
                by (rule extends_all [OF extends_watchDm_updatePartitions q1])
              obtain err n3 where ld: "loadSegment env ?lreq segmentTypeGrowing ?n2 = (err, n3)"
                by (cases "loadSegment env ?lreq segmentTypeGrowing ?n2")
              have n3: "n3 = snd (loadSegment env ?lreq segmentTypeGrowing ?n2)" using ld by simp
              have q3: "list_all quiet (calls n3)"
                unfolding n3 by (rule extends_all [OF extends_loadSegment q2])
              show ?thesis
              proof (cases err)
                case (Some e)
                then have "watchDmChannelsTask_Execute env w node = Return (Some e) n3"
                  using len ld by (simp add: watchDmChannelsTask_Execute_def r infos pc sch ufs base Let_def)
                then have ?B using q3 by blast
                then show ?thesis by blast
              next
                case None
                then have out: "watchDmChannelsTask_Execute env w node
                    = watchDm_afterLoad env r (determineLoadType r) infos ufs (map ID ?loaded) n3"
                  using len ld by (simp add: watchDmChannelsTask_Execute_def r infos pc sch ufs base Let_def)
                have col: "collections (streaming n3) ?cid \<noteq> None" "collections (historical n3) ?cid \<noteq> None"
                  unfolding n3
                  by (simp_all only: collections_loadSegment collections_watchDm_updatePartitions
                      collections_watchDm_initMeta not_False_eq_True)
                have "map SegmentID (map toLoadInfo ?loaded) = map ID ?loaded"
                  by (simp add: toLoadInfo_def)
                then have ls: "LoadSegment (map ID ?loaded) segmentTypeGrowing None \<in> set (calls n3)"
                  using ld None by (auto simp: loadSegment_def Let_def)
                have ?C
                  using r infos ufs base q3 col ls out by blast
                then show ?thesis by blast
              qed
            qed
          qed
        qed
      qed
    qed
  qed
qed

subsection \<open>WatchDeltaChannels: calls of the stages\<close>

lemma watchDelta_attachOne_cases:
  "watchDelta_attachOne env cid VP sub seekPos (channel, fg) n =
     (case consumeFlowGraphFromLatestResult env (fgChannel fg) (goLookupString VP channel) sub of
        Some e \<Rightarrow>
          (Some e, called (ConsumeFlowGraphFromLatest (fgChannel fg) (goLookupString VP channel) sub (Some e)) n)
      | None \<Rightarrow>
          (FromDmlCPLoadDeleteResult env cid (goLookupPtr seekPos channel),
           called (FromDmlCPLoadDelete cid (goLookupPtr seekPos channel)
                     (FromDmlCPLoadDeleteResult env cid (goLookupPtr seekPos channel)))
             (called (ConsumeFlowGraphFromLatest (fgChannel fg) (goLookupString VP channel) sub None) n)))"
  by (simp add: watchDelta_attachOne_def consumeFlowGraphFromLatest_def loader_FromDmlCPLoadDelete_def
      Let_def split: option.splits)

lemma extends_watchDelta_attachOne:
  "extends quiet n (snd (watchDelta_attachOne env cid VP sub seekPos x n))"
  by (cases x) (simp add: watchDelta_attachOne_cases extends_def split: option.splits)

lemma attachedOK_watchDelta_attachOne:
  "fst (watchDelta_attachOne env cid VP sub seekPos (channel, fg) n) = None \<Longrightarrow>
   \<exists>c\<in>set (calls (snd (watchDelta_attachOne env cid VP sub seekPos (channel, fg) n))).
      attachedOK (fgChannel fg) c"
  by (auto simp: watchDelta_attachOne_cases attachedOK_def split: option.splits)

lemma extends_watchDelta_attach:
  "extends quiet n (snd (watchDelta_attach env cid VP sub seekPos xs n))"
  unfolding watchDelta_attach_def by (rule untilError_extends) (rule extends_watchDelta_attachOne)

lemma attachedOK_watchDelta_attach:
  assumes "fst (watchDelta_attach env cid VP sub seekPos xs n) = None"
    and "(channel, fg) \<in> set xs"
  shows "\<exists>c\<in>set (calls (snd (watchDelta_attach env cid VP sub seekPos xs n))). attachedOK (fgChannel fg) c"
  using assms(1) unfolding watchDelta_attach_def
  by (rule untilError_present [OF _ assms(2)])
     (auto intro: extends_subset [OF extends_watchDelta_attachOne, THEN subsetD]
           attachedOK_watchDelta_attachOne)

lemma calls_watchDelta_rollback:
  "calls (watchDelta_rollback env m n) =
     calls n @ map (\<lambda>(channel, fg). FlowGraphClose (fgChannel fg)) (rangeOver (rangeSeed env 1) m)
     @ [RemoveFlowGraphsByDeltaChannels (map fst (rangeOver (rangeSeed env 2) m))]"
  by (simp add: watchDelta_rollback_def removeFlowGraphsByDeltaChannels_def calls_fold_Close)

lemma extends_watchDelta_rollback: "extends quiet n (watchDelta_rollback env m n)"
  by (rule extendsI [OF calls_watchDelta_rollback]) (auto simp: list_all_iff)

lemma extends_addFlowGraphsForDeltaChannels:
  "extends quiet s (snd (addFlowGraphsForDeltaChannels env cid chs s))"
  by (rule extendsI [where cs = "[AddFlowGraphsForDeltaChannels cid chs (addFlowGraphsForDeltaChannelsResult env cid chs)]"])
     (simp_all add: prim_defs Let_def split: option.splits)

lemma addFlowGraphsForDeltaChannels_Inr:
  "addFlowGraphsForDeltaChannels env cid chs s = (Inr m, s') \<Longrightarrow>
     m = map (\<lambda>ch. (ch, \<lparr>fgCollectionID = cid, fgChannel = ch\<rparr>)) (remdups chs)"
  by (auto simp: prim_defs Let_def split: option.splits)

lemma extends_watchDelta_queryShard: "extends quiet n (watchDelta_queryShard env cid rid ch n)"
  by (simp add: watchDelta_queryShard_def hasQueryShard_def getQueryShard_def addQueryShard_def
      watchDeltaTSafe_def Let_def extends_def split: option.splits sum.splits)

lemma watchDelta_queryShard_watches:
  "ConvertChannelName env ch (RootCoordDelta env) (RootCoordDml env) = Inr dmlChannel \<Longrightarrow>
   addQueryShardResult env cid dmlChannel rid = None \<Longrightarrow>
   WatchDeltaTSafe dmlChannel (watchDeltaTSafeResult env dmlChannel)
     \<in> set (calls (watchDelta_queryShard env cid rid ch s))"
  by (simp add: watchDelta_queryShard_def hasQueryShard_def getQueryShard_def addQueryShard_def
      watchDeltaTSafe_def Let_def split: option.splits)

lemma watchDelta_register_calls:
  "\<exists>cs. calls (watchDelta_register env r vs ps n)
          = calls n @ watchDelta_metadataCalls (Request.CollectionID r) vs ps @ map AddTSafe vs @ cs
        \<and> list_all quiet cs"
proof -
  let ?cid = "Request.CollectionID r"
  let ?n2 = "addPDeltaChannels streamingReplica ?cid ps
               (addVDeltaChannels streamingReplica ?cid vs
                 (addPDeltaChannels historicalReplica ?cid ps
                   (addVDeltaChannels historicalReplica ?cid vs n)))"
  let ?n3 = "fold addTSafe vs ?n2"
  have c3: "calls ?n3 = calls n @ watchDelta_metadataCalls ?cid vs ps @ map AddTSafe vs"
    by (simp add: calls_fold_addTSafe watchDelta_metadataCalls_def prim_defs)
  have "extends quiet ?n3 (fold (watchDelta_queryShard env ?cid (ReplicaId r)) vs ?n3)"
    by (rule extends_fold) (rule extends_watchDelta_queryShard)
  then obtain cs where "calls (fold (watchDelta_queryShard env ?cid (ReplicaId r)) vs ?n3) = calls ?n3 @ cs"
    and "list_all quiet cs"
    by (auto simp: extends_iff)
  then show ?thesis
    unfolding watchDelta_register_def Let_def c3 by simp
qed

lemma watchDelta_register_shards:
  assumes "ch \<in> set vs"
    and "ConvertChannelName env ch (RootCoordDelta env) (RootCoordDml env) = Inr dmlChannel"
    and "addQueryShardResult env (Request.CollectionID r) dmlChannel (ReplicaId r) = None"
  shows "WatchDeltaTSafe dmlChannel (watchDeltaTSafeResult env dmlChannel)
           \<in> set (calls (watchDelta_register env r vs ps n))"
  unfolding watchDelta_register_def Let_def
  by (rule fold_present [OF assms(1)])
     (simp_all add: watchDelta_queryShard_watches [OF assms(2,3)]
        extends_subset [OF extends_watchDelta_queryShard])

lemma fold_update_keys:
  "distinct (map fst m0) \<Longrightarrow>
   distinct (map fst (fold (\<lambda>x m. AList.update (f x) (g x) m) xs m0))
   \<and> fst ` set (fold (\<lambda>x m. AList.update (f x) (g x) m) xs m0) = fst ` set m0 \<union> f ` set xs"
proof (induction xs arbitrary: m0)
  case Nil
  then show ?case by simp
next
  case (Cons x xs)
  have "distinct (map fst (AList.update (f x) (g x) m0))"
    using Cons.prems by (simp add: distinct_update)
  from Cons.IH [OF this] show ?case
    by (simp add: dom_update)
qed

lemma physicalChannels_length:
  assumes "physicalChannels env infos = (vs, ps, VP)"
  shows "(length VP = length vs) = distinct vs"
proof -
  have vs: "vs = map VchannelInfo.ChannelName infos"
    and VP: "VP = fold (\<lambda>info m. AList.update (VchannelInfo.ChannelName info)
                        (ToPhysicalChannel env (VchannelInfo.ChannelName info)) m) infos []"
    using assms by (simp_all add: physicalChannels_def)
  have d: "distinct (map fst VP)" and k: "fst ` set VP = set vs"
    using fold_update_keys [of "[]" VchannelInfo.ChannelName
        "\<lambda>info. ToPhysicalChannel env (VchannelInfo.ChannelName info)" infos]
    unfolding VP vs by simp_all
  have "length VP = card (set vs)"
    using distinct_card [OF d] k by simp
  then show ?thesis
    by (metis card_distinct distinct_card)
qed

lemma watchDelta_Execute_cases:
  "((\<forall>n'. watchDeltaChannelsTask_Execute env w node \<noteq> Return None n')
      \<and> list_all quiet (calls (nodeOf (watchDeltaChannelsTask_Execute env w node))))
   \<or> (\<exists>r infos n' pre chans. req w = Some r
         \<and> those (WatchDeltaChannelsRequest.Infos r) = Some infos
         \<and> watchDeltaChannelsTask_Execute env w node = Return None n'
         \<and> calls n' = pre @ map FlowGraphStart chans
         \<and> list_all quiet pre
         \<and> set chans = set (map VchannelInfo.ChannelName infos) \<and> distinct chans
         \<and> (\<forall>ch\<in>set (map VchannelInfo.ChannelName infos). \<exists>c\<in>set pre. attachedOK ch c)
         \<and> set (watchDelta_metadataCalls (Request.CollectionID r)
                    (map VchannelInfo.ChannelName infos)
                    (map (\<lambda>info. ToPhysicalChannel env (VchannelInfo.ChannelName info)) infos)) \<subseteq> set pre
         \<and> AddTSafe ` set (map VchannelInfo.ChannelName infos) \<subseteq> set pre
         \<and> (\<forall>ch\<in>set (map VchannelInfo.ChannelName infos). \<forall>dmlChannel.
               ConvertChannelName env ch (RootCoordDelta env) (RootCoordDml env) = Inr dmlChannel \<longrightarrow>
               addQueryShardResult env (Request.CollectionID r) dmlChannel (ReplicaId r) = None \<longrightarrow>
               WatchDeltaTSafe dmlChannel (watchDeltaTSafeResult env dmlChannel) \<in> set pre))"
  (is "?A \<or> ?D")
proof -
  let ?n0 = "node\<lparr>calls := []\<rparr>"
  let ?out = "watchDeltaChannelsTask_Execute env w node"
  have early: "\<And>x. ?out = Panic x ?n0 \<Longrightarrow> ?A" "\<And>e. ?out = Return (Some e) ?n0 \<Longrightarrow> ?A"
    by (simp_all add: nodeOf_def)
  show ?thesis
  proof (cases "req w")
    case None
    then have "?out = Panic NilPointerDereference ?n0"
      by (simp add: watchDeltaChannelsTask_Execute_def)
    then show ?thesis using early by blast
  next
    case r: (Some r)
    let ?cid = "Request.CollectionID r"
    show ?thesis
    proof (cases "those (WatchDeltaChannelsRequest.Infos r)")
      case None
      then have "?out = Panic NilPointerDereference ?n0"
        by (simp add: watchDeltaChannelsTask_Execute_def r)
      then show ?thesis using early by blast
    next
      case infos: (Some infos)
      let ?vs = "map VchannelInfo.ChannelName infos"
      let ?ps = "map (\<lambda>info. ToPhysicalChannel env (VchannelInfo.ChannelName info)) infos"
      let ?sub = "GenChannelSubName env (QueryNodeSubName env) ?cid (GetNodeID env)"
      let ?seekPos = "fold (\<lambda>info m. AList.update (VchannelInfo.ChannelName info)
                                            (VchannelInfo.SeekPosition info) m) infos []"
      obtain VP where pc: "physicalChannels env infos = (?vs, ?ps, VP)"
        by (simp add: physicalChannels_def)
      have split: "(\<exists>e. ?out = Return (Some e) ?n0)
        \<or> ?out = (case addFlowGraphsForDeltaChannels env ?cid ?vs ?n0 of
                                (Inl e, n1) \<Rightarrow> Return (Some e) n1
                              | (Inr channel2FlowGraph, n1) \<Rightarrow>
                                  (let consumeSubName = ?sub in
                                   case watchDelta_attach env ?cid VP consumeSubName ?seekPos
                                             (rangeOver (rangeSeed env 0) channel2FlowGraph) n1 of
                                        (Some e, n2) \<Rightarrow>
                                          Return (Some e) (watchDelta_rollback env channel2FlowGraph n2)
                                      | (None, n2) \<Rightarrow>
                                          Return None
                                            (watchDelta_finish env r ?vs ?ps channel2FlowGraph n2)))"
      proof (cases "length VP = length ?vs \<and> collections (historical node) ?cid \<noteq> None
                    \<and> collections (streaming node) ?cid \<noteq> None")
        case True
        then show ?thesis
          by (auto simp: watchDeltaChannelsTask_Execute_def r infos pc Let_def hasCollection_def
              getCollectionByID_def)
      next
        case False
        then have "\<exists>e. ?out = Return (Some e) ?n0"
          by (auto simp: watchDeltaChannelsTask_Execute_def r infos pc Let_def hasCollection_def
              getCollectionByID_def)
        then show ?thesis by blast
      qed
      then consider (invalid) e where "?out = Return (Some e) ?n0"
        | (valid) "?out = (case addFlowGraphsForDeltaChannels env ?cid ?vs ?n0 of
                                (Inl e, n1) \<Rightarrow> Return (Some e) n1
                              | (Inr channel2FlowGraph, n1) \<Rightarrow>
                                  (let consumeSubName = ?sub in
                                   case watchDelta_attach env ?cid VP consumeSubName ?seekPos
                                             (rangeOver (rangeSeed env 0) channel2FlowGraph) n1 of
                                        (Some e, n2) \<Rightarrow>
                                          Return (Some e) (watchDelta_rollback env channel2FlowGraph n2)
                                      | (None, n2) \<Rightarrow>
                                          Return None
                                            (watchDelta_finish env r ?vs ?ps channel2FlowGraph n2)))"
        by blast
      then show ?thesis
      proof cases
        case invalid
        then show ?thesis using early by blast
      next
        case valid
        obtain res n1 where a: "addFlowGraphsForDeltaChannels env ?cid ?vs ?n0 = (res, n1)"
          by (cases "addFlowGraphsForDeltaChannels env ?cid ?vs ?n0")
        have n1: "n1 = snd (addFlowGraphsForDeltaChannels env ?cid ?vs ?n0)" using a by simp
        have q1: "list_all quiet (calls n1)"
          unfolding n1 by (rule extends_all [OF extends_addFlowGraphsForDeltaChannels]) simp
        show ?thesis
        proof (cases res)
          case (Inl e)
          then have "?out = Return (Some e) n1" using valid a by simp
          then have ?A using q1 by (simp add: nodeOf_def)
          then show ?thesis by blast
        next
          case created: (Inr c2fg)
          have c2fg: "c2fg = map (\<lambda>ch. (ch, \<lparr>fgCollectionID = ?cid, fgChannel = ch\<rparr>)) (remdups ?vs)"
            using a created by (auto dest: addFlowGraphsForDeltaChannels_Inr)
          obtain r2 n2 where att: "watchDelta_attach env ?cid VP ?sub ?seekPos
                                     (rangeOver (rangeSeed env 0) c2fg) n1 = (r2, n2)"
            by (cases "watchDelta_attach env ?cid VP ?sub ?seekPos (rangeOver (rangeSeed env 0) c2fg) n1")
          have n2: "n2 = snd (watchDelta_attach env ?cid VP ?sub ?seekPos (rangeOver (rangeSeed env 0) c2fg) n1)"
            and r2: "r2 = fst (watchDelta_attach env ?cid VP ?sub ?seekPos (rangeOver (rangeSeed env 0) c2fg) n1)"
            using att by simp_all
          have q2: "list_all quiet (calls n2)"
            unfolding n2 by (rule extends_all [OF extends_watchDelta_attach q1])
          show ?thesis
          proof (cases r2)
            case (Some e)
            then have "?out = Return (Some e) (watchDelta_rollback env c2fg n2)"
              using valid a created att by simp
            moreover have "list_all quiet (calls (watchDelta_rollback env c2fg n2))"
              by (rule extends_all [OF extends_watchDelta_rollback q2])
            ultimately have ?A by (simp add: nodeOf_def)
            then show ?thesis by blast
          next
            case None
            let ?n' = "watchDelta_finish env r ?vs ?ps c2fg n2"
            have out: "?out = Return None ?n'"
              using None valid a created att by simp
            obtain cs where reg: "calls (watchDelta_register env r ?vs ?ps n2)
                 = calls n2 @ watchDelta_metadataCalls ?cid ?vs ?ps @ map AddTSafe ?vs @ cs"
              and qcs: "list_all quiet cs"
              using watchDelta_register_calls [of env r ?vs ?ps n2] by blast
            let ?pre = "calls (watchDelta_register env r ?vs ?ps n2)"
            let ?chans = "map fst (rangeOver (rangeSeed env 3) c2fg)"
            have calls': "calls ?n' = ?pre @ map FlowGraphStart ?chans"
              by (simp add: watchDelta_finish_def calls_fold_Start created_entries(3) [OF c2fg])
            have 1: "list_all quiet ?pre"
              unfolding reg using q2 qcs by (auto simp: watchDelta_metadataCalls_def list_all_iff)
            have 2: "set ?chans = set ?vs" "distinct ?chans"
              using created_entries(4,5) [OF c2fg] by simp_all
            have 3: "\<forall>ch\<in>set ?vs. \<exists>c\<in>set ?pre. attachedOK ch c"
            proof
              fix ch assume ch: "ch \<in> set ?vs"
              have "(ch, \<lparr>fgCollectionID = ?cid, fgChannel = ch\<rparr>) \<in> set c2fg"
                using ch c2fg by auto
              then have mem: "(ch, \<lparr>fgCollectionID = ?cid, fgChannel = ch\<rparr>)
                                \<in> set (rangeOver (rangeSeed env 0) c2fg)"
                by (simp add: set_rangeOver [OF created_entries(1) [OF c2fg]])
              have "\<exists>c\<in>set (calls n2). attachedOK (fgChannel \<lparr>fgCollectionID = ?cid, fgChannel = ch\<rparr>) c"
                unfolding n2 using None r2
                by (intro attachedOK_watchDelta_attach [OF _ mem]) simp
              then show "\<exists>c\<in>set ?pre. attachedOK ch c"
                unfolding reg by auto
            qed
            have 5: "set (watchDelta_metadataCalls ?cid ?vs ?ps) \<subseteq> set ?pre"
              unfolding reg by auto
            have 6: "AddTSafe ` set ?vs \<subseteq> set ?pre"
              unfolding reg by auto
            have 7: "\<forall>ch\<in>set ?vs. \<forall>dmlChannel.
               ConvertChannelName env ch (RootCoordDelta env) (RootCoordDml env) = Inr dmlChannel \<longrightarrow>
               addQueryShardResult env ?cid dmlChannel (ReplicaId r) = None \<longrightarrow>
               WatchDeltaTSafe dmlChannel (watchDeltaTSafeResult env dmlChannel) \<in> set ?pre"
              using watchDelta_register_shards [of _ ?vs env _ r ?ps n2] by blast
            have ?D
              using r infos out calls' 1 2 3 5 6 7 by blast
            then show ?thesis by blast
          qed
        qed
      qed
    qed
  qed
qed

subsection \<open>OnEnqueue and Timestamp\<close>

lemma addQueryChannelTask_OnEnqueue_eq:
  "addQueryChannelTask_OnEnqueue v t = (None, baseTask_SetID (enqueuedID v (req t)) t)"
  by (simp add: addQueryChannelTask_OnEnqueue_def enqueuedID_def presentMsgID_def split: option.splits)

lemma watchDmChannelsTask_OnEnqueue_eq:
  "watchDmChannelsTask_OnEnqueue v t = (None, baseTask_SetID (enqueuedID v (req t)) t)"
  by (simp add: watchDmChannelsTask_OnEnqueue_def enqueuedID_def presentMsgID_def split: option.splits)

lemma watchDeltaChannelsTask_OnEnqueue_eq:
  "watchDeltaChannelsTask_OnEnqueue v t = (None, baseTask_SetID (enqueuedID v (req t)) t)"
  by (simp add: watchDeltaChannelsTask_OnEnqueue_def enqueuedID_def presentMsgID_def split: option.splits)

lemma loadSegmentsTask_OnEnqueue_eq:
  "loadSegmentsTask_OnEnqueue v t = (None, baseTask_SetID (enqueuedID v (req t)) t)"
  by (simp add: loadSegmentsTask_OnEnqueue_def enqueuedID_def presentMsgID_def split: option.splits)

lemma releaseCollectionTask_OnEnqueue_eq:
  "releaseCollectionTask_OnEnqueue v t = (None, baseTask_SetID (enqueuedID v (req t)) t)"
  by (simp add: releaseCollectionTask_OnEnqueue_def enqueuedID_def presentMsgID_def split: option.splits)

lemma releasePartitionsTask_OnEnqueue_eq:
  "releasePartitionsTask_OnEnqueue v t = (None, baseTask_SetID (enqueuedID v (req t)) t)"
  by (simp add: releasePartitionsTask_OnEnqueue_def enqueuedID_def presentMsgID_def split: option.splits)

text \<open>
  C7, as the code has it: for every task variant, \<open>OnEnqueue\<close> returns nil and sets the
  id to \<^verbatim>\<open>Base.MsgID\<close> when the request and its \<^verbatim>\<open>Base\<close> are present, and otherwise to
  \<^verbatim>\<open>rand.Int63n(100000000000)\<close>, a value from 0 up to, not including, 100000000000
  (so it fits 63 bits, and it may be 0).
\<close>

theorem OnEnqueue_id:
  "addQueryChannelTask_OnEnqueue v t1 = (None, baseTask_SetID (enqueuedID v (req t1)) t1)
   \<and> watchDmChannelsTask_OnEnqueue v t2 = (None, baseTask_SetID (enqueuedID v (req t2)) t2)
   \<and> watchDeltaChannelsTask_OnEnqueue v t3 = (None, baseTask_SetID (enqueuedID v (req t3)) t3)
   \<and> loadSegmentsTask_OnEnqueue v t4 = (None, baseTask_SetID (enqueuedID v (req t4)) t4)
   \<and> releaseCollectionTask_OnEnqueue v t5 = (None, baseTask_SetID (enqueuedID v (req t5)) t5)
   \<and> releasePartitionsTask_OnEnqueue v t6 = (None, baseTask_SetID (enqueuedID v (req t6)) t6)
   \<and> 0 \<le> rand_Int63n 100000000000 v \<and> rand_Int63n 100000000000 v < 100000000000"
  unfolding addQueryChannelTask_OnEnqueue_eq watchDmChannelsTask_OnEnqueue_eq
    watchDeltaChannelsTask_OnEnqueue_eq loadSegmentsTask_OnEnqueue_eq
    releaseCollectionTask_OnEnqueue_eq releasePartitionsTask_OnEnqueue_eq
  by (simp add: rand_Int63n_def)

text \<open>
  C7, an instance: a task without request gets the draw reduced modulo 100000000000,
  a task whose request has a \<^verbatim>\<open>Base\<close> gets its \<^verbatim>\<open>MsgID\<close>.
\<close>

theorem OnEnqueue_id_witness:
  "watchDmChannelsTask_OnEnqueue 12345678901234 \<lparr>id' = 0, req = None\<rparr>
     = (None, \<lparr>id' = 45678901234, req = None\<rparr>)
   \<and> releaseCollectionTask_OnEnqueue 5
        \<lparr>id' = 0, req = Some \<lparr>Base = Some \<lparr>MsgType = MsgType_Undefined, MsgBase.MsgID = 42,
                                           MsgBase.Timestamp = 9\<rparr>,
                             CollectionID = 100, NodeID = 1\<rparr>\<rparr>
     = (None, \<lparr>id' = 42, req = Some \<lparr>Base = Some \<lparr>MsgType = MsgType_Undefined, MsgBase.MsgID = 42,
                                           MsgBase.Timestamp = 9\<rparr>,
                             CollectionID = 100, NodeID = 1\<rparr>\<rparr>)"
  using OnEnqueue_id [of 12345678901234 _ "\<lparr>id' = 0, req = None\<rparr>"]
    OnEnqueue_id [of 5 _ _ _ _ "\<lparr>id' = 0, req = Some \<lparr>Base = Some \<lparr>MsgType = MsgType_Undefined,
        MsgBase.MsgID = 42, MsgBase.Timestamp = 9\<rparr>, CollectionID = 100, NodeID = 1\<rparr>\<rparr>"]
  by (simp add: enqueuedID_def presentMsgID_def rand_Int63n_def baseTask_SetID_def)

text \<open>
  C7 as stated fails: when the generator draws 0, a task without request gets the id 0,
  which is not nonzero.
\<close>

theorem OnEnqueue_zero_id:
  "baseTask_ID (snd (releaseCollectionTask_OnEnqueue 0 \<lparr>id' = 7, req = None\<rparr>)) = 0"
  by (simp add: releaseCollectionTask_OnEnqueue_def baseTask_SetID_def baseTask_ID_def rand_Int63n_def)

lemma case_option_Inr:
  "(case x of None \<Rightarrow> Inr a | Some b \<Rightarrow> Inr (f b)) = Inr (case x of None \<Rightarrow> a | Some b \<Rightarrow> f b)"
  by (cases x) simp_all

text \<open>
  C8, as the code has it: for every task variant and every request, \<open>Timestamp\<close> returns
  0 when \<^verbatim>\<open>Base\<close> is nil and \<^verbatim>\<open>Base.Timestamp\<close> otherwise (which is 0 when the
  request carries the timestamp 0).
\<close>

theorem Timestamp_value:
  "addQueryChannelTask_Timestamp (t1\<lparr>req := Some q1\<rparr>)
     = Inr (case Base q1 of None \<Rightarrow> 0 | Some b \<Rightarrow> MsgBase.Timestamp b)
   \<and> watchDmChannelsTask_Timestamp (t2\<lparr>req := Some q2\<rparr>)
     = Inr (case Base q2 of None \<Rightarrow> 0 | Some b \<Rightarrow> MsgBase.Timestamp b)
   \<and> watchDeltaChannelsTask_Timestamp (t3\<lparr>req := Some q3\<rparr>)
     = Inr (case Base q3 of None \<Rightarrow> 0 | Some b \<Rightarrow> MsgBase.Timestamp b)
   \<and> loadSegmentsTask_Timestamp (t4\<lparr>req := Some q4\<rparr>)
     = Inr (case Base q4 of None \<Rightarrow> 0 | Some b \<Rightarrow> MsgBase.Timestamp b)
   \<and> releaseCollectionTask_Timestamp (t5\<lparr>req := Some q5\<rparr>)
     = Inr (case Base q5 of None \<Rightarrow> 0 | Some b \<Rightarrow> MsgBase.Timestamp b)
   \<and> releasePartitionsTask_Timestamp (t6\<lparr>req := Some q6\<rparr>)
     = Inr (case Base q6 of None \<Rightarrow> 0 | Some b \<Rightarrow> MsgBase.Timestamp b)"
  by (simp add: addQueryChannelTask_Timestamp_def watchDmChannelsTask_Timestamp_def
      watchDeltaChannelsTask_Timestamp_def loadSegmentsTask_Timestamp_def
      releaseCollectionTask_Timestamp_def releasePartitionsTask_Timestamp_def case_option_Inr)

text \<open>
  C8, an instance: a release-partitions request with \<^verbatim>\<open>Base.Timestamp = 500\<close> and a
  load-segments request without \<^verbatim>\<open>Base\<close>.
\<close>

theorem Timestamp_value_witness:
  "releasePartitionsTask_Timestamp
     \<lparr>id' = 1, req = Some \<lparr>Base = Some \<lparr>MsgType = MsgType_Undefined, MsgBase.MsgID = 1,
                                        MsgBase.Timestamp = 500\<rparr>,
                          CollectionID = 100, PartitionIDs = [1, 2]\<rparr>\<rparr> = Inr 500
   \<and> loadSegmentsTask_Timestamp
     \<lparr>id' = 1, req = Some \<lparr>Base = None, CollectionID = 300, Infos = [], Schema = None,
                          LoadMeta = None\<rparr>\<rparr> = Inr 0"
  using Timestamp_value [of _ _ _ _ _ _
      "\<lparr>Base = None, CollectionID = 300, Infos = [], Schema = None, LoadMeta = None\<rparr>"
      "\<lparr>id' = 1, req = None\<rparr>" _ _
      "\<lparr>Base = Some \<lparr>MsgType = MsgType_Undefined, MsgBase.MsgID = 1, MsgBase.Timestamp = 500\<rparr>,
        CollectionID = 100, PartitionIDs = [1, 2]\<rparr>"
      "\<lparr>id' = 1, req = None\<rparr>"]
  by simp

text \<open>
  C8 as stated fails: the request below has a \<^verbatim>\<open>Base\<close>, with timestamp 0, and
  \<open>Timestamp\<close> returns 0.
\<close>

theorem Timestamp_zero_with_Base:
  "releaseCollectionTask_Timestamp
     \<lparr>id' = 1, req = Some \<lparr>Base = Some \<lparr>MsgType = MsgType_Undefined, MsgBase.MsgID = 1,
                                        MsgBase.Timestamp = 0\<rparr>,
                          CollectionID = 100, NodeID = 1\<rparr>\<rparr> = Inr 0"
  by (simp add: releaseCollectionTask_Timestamp_def)

subsection \<open>WatchDmChannels\<close>

lemmas eval_defs = env_ok_def env_seekFails_def emptyReplica_def emptyNode_def segment7_def
  watchDmRequest_def watchDmTask_def
  watchDmChannelsTask_Execute_def watchDm_afterLoad_def watchDm_initMeta_def
  watchDm_updatePartitions_def watchDm_removeGrowing_def watchDm_rollback_def
  watchDm_finish_def watchDm_register_def watchDm_queryShard_def watchDm_attach_def
  watchDm_attachOne_def physicalChannels_def groupChannels_def groupStep_def determineLoadType_def
  GetLoadType_def
  toLoadInfo_def rangeOver_def goLookupString_def goLookupPtr_def nodeOf_def
  hasQueryShard_def getQueryShard_def hasCollection_def getCollectionByID_def hasPartition_def
  prim_defs called_def onReplica_def replicaOf_def Let_def

text \<open>
  C1: for every WatchDmChannels execution in which a consume or seek call on a
  flow-graph fails, \<open>Execute\<close> returns an error and, in the node it leaves: every
  flow-graph the task created (one per vchannel of the request) was closed and is
  gone from the flow-graph service, every growing segment the task loaded (the
  unflushed segments with binlogs) is gone from the streaming replica, and the
  collection is still present in both replicas.
\<close>

theorem watchDm_attach_failure_rollback:
  assumes "\<exists>c\<in>set (calls (nodeOf (watchDmChannelsTask_Execute env w node))). attachFailed c"
  shows "\<exists>e n' r infos ufs.
           watchDmChannelsTask_Execute env w node = Return (Some e) n'
         \<and> req w = Some r
         \<and> those (WatchDmChannelsRequest.Infos r) = Some infos
         \<and> those (concat (map UnflushedSegments infos)) = Some ufs
         \<and> AddFlowGraphsForDMLChannels (Request.CollectionID r)
               (map VchannelInfo.ChannelName infos) None \<in> set (calls n')
         \<and> (\<forall>ch\<in>set (map VchannelInfo.ChannelName infos).
               FlowGraphClose ch \<in> set (calls n') \<and> dmlChannel2FlowGraph n' ch = None)
         \<and> LoadSegment (map ID (filter (\<lambda>ufInfo. length (Binlogs ufInfo) > 0) ufs))
               segmentTypeGrowing None \<in> set (calls n')
         \<and> (\<forall>sid\<in>set (map ID (filter (\<lambda>ufInfo. length (Binlogs ufInfo) > 0) ufs)).
               segments (streaming n') sid = None)
         \<and> collections (streaming n') (Request.CollectionID r) \<noteq> None
         \<and> collections (historical n') (Request.CollectionID r) \<noteq> None"
proof -
  have noq: "\<And>out. list_all quiet (calls (nodeOf out)) \<Longrightarrow> \<not> (\<exists>c\<in>set (calls (nodeOf out)). attachFailed c)"
    by (auto simp: list_all_iff quiet_def)
  from watchDm_Execute_cases [of env w node]
  consider
    (early) "list_all quiet (calls (nodeOf (watchDmChannelsTask_Execute env w node)))"
  | (load) r infos ufs n3 where "req w = Some r"
         "those (WatchDmChannelsRequest.Infos r) = Some infos"
         "those (concat (map UnflushedSegments infos)) = Some ufs"
         "list_all quiet (calls n3)"
         "collections (streaming n3) (Request.CollectionID r) \<noteq> None"
         "collections (historical n3) (Request.CollectionID r) \<noteq> None"
         "LoadSegment (map ID (filter (\<lambda>ufInfo. length (Binlogs ufInfo) > 0) ufs))
               segmentTypeGrowing None \<in> set (calls n3)"
         "watchDmChannelsTask_Execute env w node
             = watchDm_afterLoad env r (determineLoadType r) infos ufs
                 (map ID (filter (\<lambda>ufInfo. length (Binlogs ufInfo) > 0) ufs)) n3"
    by (auto simp: nodeOf_def)
  then show ?thesis
  proof cases
    case early
    then show ?thesis using assms noq by blast
  next
    case load
    let ?ids = "map ID (filter (\<lambda>ufInfo. length (Binlogs ufInfo) > 0) ufs)"
    let ?out = "watchDm_afterLoad env r (determineLoadType r) infos ufs ?ids n3"
    have bad: "\<exists>c\<in>set (calls (nodeOf ?out)). attachFailed c"
      using assms load(8) by simp
    from watchDm_afterLoad_cases [OF load(4), of env r "determineLoadType r" infos ufs ?ids]
    consider
      (q) "list_all quiet (calls (nodeOf ?out))"
    | (rb) e n' where "?out = Return (Some e) n'"
          "\<forall>ch\<in>set (map VchannelInfo.ChannelName infos).
                dmlChannel2FlowGraph n' ch = None \<and> FlowGraphClose ch \<in> set (calls n')"
          "\<forall>sid\<in>set ?ids. segments (streaming n') sid = None"
          "collections (streaming n') = collections (streaming n3)"
          "collections (historical n') = collections (historical n3)"
          "set (calls n3) \<subseteq> set (calls n')"
          "AddFlowGraphsForDMLChannels (Request.CollectionID r)
                (map VchannelInfo.ChannelName infos) None \<in> set (calls n')"
    | (ok) n' pre chans where "?out = Return None n'"
          "calls n' = pre @ map FlowGraphStart chans" "list_all quiet pre"
      by (auto simp: nodeOf_def)
    then show ?thesis
    proof cases
      case q
      then show ?thesis using bad noq by blast
    next
      case ok
      then have "\<not> (\<exists>c\<in>set (calls (nodeOf ?out)). attachFailed c)"
        by (auto simp: nodeOf_def list_all_iff quiet_def attachFailed_def)
      then show ?thesis using bad by blast
    next
      case rb
      have "watchDmChannelsTask_Execute env w node = Return (Some e) n'"
        using load(8) rb(1) by simp
      moreover have "LoadSegment ?ids segmentTypeGrowing None \<in> set (calls n')"
        using load(7) rb(6) by blast
      moreover have "collections (streaming n') (Request.CollectionID r) \<noteq> None"
        "collections (historical n') (Request.CollectionID r) \<noteq> None"
        using load(5,6) rb(4,5) by simp_all
      ultimately show ?thesis
        using load(1,2,3) rb(2,3,7) by blast
    qed
  qed
qed

text \<open>
  C1, an instance: the request of the first scenario on an empty node, when the seek
  on the message bus fails (the spec's second scenario).
\<close>

theorem watchDm_attach_failure_rollback_witness:
  "(\<exists>c\<in>set (calls (nodeOf (watchDmChannelsTask_Execute env_seekFails watchDmTask emptyNode))).
      attachFailed c)
   \<and> (\<exists>n'. watchDmChannelsTask_Execute env_seekFails watchDmTask emptyNode
              = Return (Some (CollaboratorError ''seek failed'')) n'
          \<and> FlowGraphClose ''dml_0'' \<in> set (calls n')
          \<and> dmlChannel2FlowGraph n' ''dml_0'' = None
          \<and> segments (streaming n') 7 = None
          \<and> collections (streaming n') 100 \<noteq> None
          \<and> collections (historical n') 100 \<noteq> None)"
proof -
  have hyp: "\<exists>c\<in>set (calls (nodeOf (watchDmChannelsTask_Execute env_seekFails watchDmTask emptyNode))).
      attachFailed c"
    by (simp add: eval_defs attachFailed_def)
  have run: "\<exists>n'. watchDmChannelsTask_Execute env_seekFails watchDmTask emptyNode
              = Return (Some (CollaboratorError ''seek failed'')) n'"
    by (simp add: eval_defs)
  have r: "req watchDmTask = Some watchDmRequest"
    by (simp add: watchDmTask_def)
  from watchDm_attach_failure_rollback [OF hyp] run r
  show ?thesis
    using hyp by (auto simp: watchDmRequest_def segment7_def)
qed

end
